theory Spec2Isabelle
  imports Complex_Main "HOL-Library.Multiset"
begin

section \<open>Numbers and geometry\<close>

text \<open>
  The scene graph computes on C++ \<^verbatim>\<open>float\<close> and \<^verbatim>\<open>int\<close>. In this development a
  \<^verbatim>\<open>float\<close> is a real number, and sums, differences, products and quotients of
  floats are taken as exact, so the theorems below speak about the arithmetic the code
  writes down. The conversion of an \<^verbatim>\<open>int\<close> to a \<^verbatim>\<open>float\<close> is not exact
  above \<open>2^24\<close> and is written out (\<open>int_to_float\<close> below). An \<^verbatim>\<open>int\<close> is an
  integer; none of the functions below does integer arithmetic that could leave the
  32-bit range on its own, so no wrap-around is written. A float division is the one
  operation that can go wrong here: dividing by zero is reported as the value
  \<open>Inl DivisionByZero\<close> instead of an infinity or a NaN.
\<close>

datatype error = DivisionByZero

definition fdiv :: "real \<Rightarrow> real \<Rightarrow> error + real" where
  "fdiv a b = (if b = 0 then Inl DivisionByZero else Inr (a / b))"

definition ebind :: "error + 'a \<Rightarrow> ('a \<Rightarrow> error + 'b) \<Rightarrow> error + 'b" where
  "ebind r f = (case r of Inl e \<Rightarrow> Inl e | Inr v \<Rightarrow> f v)"

text \<open>
  Modelled from the spec: \<^verbatim>\<open>Point<T>\<close> is declared outside the two source files.
  It is the "2D point" of the data model; \<^verbatim>\<open>X()\<close> and \<^verbatim>\<open>Y()\<close> are its
  components, and \<^verbatim>\<open>+\<close>, \<^verbatim>\<open>-\<close>, \<^verbatim>\<open>* scalar\<close> and \<^verbatim>\<open>/= scalar\<close> work
  componentwise. \<^verbatim>\<open>Point<>\<close> (no argument) is the integer point of screen space.
\<close>

type_synonym 'a Point = "'a \<times> 'a"

definition Point_add :: "real Point \<Rightarrow> real Point \<Rightarrow> real Point" where
  "Point_add p q = (fst p + fst q, snd p + snd q)"

definition Point_sub :: "real Point \<Rightarrow> real Point \<Rightarrow> real Point" where
  "Point_sub p q = (fst p - fst q, snd p - snd q)"

definition Point_scale :: "real Point \<Rightarrow> real \<Rightarrow> real Point" where
  "Point_scale p k = (fst p * k, snd p * k)"

definition Point_div :: "real Point \<Rightarrow> real \<Rightarrow> error + real Point" where
  "Point_div p k = ebind (fdiv (fst p) k) (\<lambda>x. ebind (fdiv (snd p) k) (\<lambda>y. Inr (x, y)))"

definition iPoint_sub :: "int Point \<Rightarrow> int Point \<Rightarrow> int Point" where
  "iPoint_sub p q = (fst p - fst q, snd p - snd q)"

definition Point_floor :: "real Point \<Rightarrow> real Point" where
  "Point_floor p = (of_int \<lfloor>fst p\<rfloor>, of_int \<lfloor>snd p\<rfloor>)"

text \<open>\<^verbatim>\<open>static_cast<int>(float)\<close> drops the fraction (rounds toward zero).\<close>

definition truncate_int :: "real \<Rightarrow> int" where
  "truncate_int x = (if 0 \<le> x then \<lfloor>x\<rfloor> else \<lceil>x\<rceil>)"

text \<open>\<^verbatim>\<open>std::roundf\<close> rounds to the nearest integer, halfway cases away from zero.\<close>

definition roundf :: "real \<Rightarrow> int" where
  "roundf x = (if 0 \<le> x then \<lfloor>x + 1 / 2\<rfloor> else \<lceil>x - 1 / 2\<rceil>)"

text \<open>
  An \<^verbatim>\<open>int\<close> that meets a \<^verbatim>\<open>float\<close> in an expression, or is cast to one, becomes
  the nearest binary32 value: 24 significant bits are kept, and a value halfway
  between two neighbours goes to the one with an even last bit. \<open>float_exponent\<close>
  counts the bits that are dropped. Up to \<open>2^24\<close> in magnitude nothing is dropped.
\<close>

fun float_exponent :: "nat \<Rightarrow> nat" where
  "float_exponent a = (if a < 2 ^ 24 then 0 else Suc (float_exponent (a div 2)))"

declare float_exponent.simps [simp del]

definition round_to_float :: "nat \<Rightarrow> nat" where
  "round_to_float a =
     (let e = float_exponent a; q = a div 2 ^ e; r = a mod 2 ^ e
      in (if 2 ^ e < 2 * r \<or> (2 * r = 2 ^ e \<and> odd q) then q + 1 else q) * 2 ^ e)"

definition int_to_float :: "int \<Rightarrow> real" where
  "int_to_float n =
     (if n < 0 then - real (round_to_float (nat (- n))) else real (round_to_float (nat n)))"

text \<open>
  Modelled from the spec: \<^verbatim>\<open>Rect\<close>, the "axis-aligned rectangle in world units", is
  declared outside the two source files. The constructor call
  \<^verbatim>\<open>{ -0.5f, -0.5f, width, length }\<close> and the persisted form
  \<^verbatim>\<open>bounding_box: { x, y, width, height }\<close> give its four fields; the way
  \<^verbatim>\<open>ResolveCollisions\<close> uses the accessors fixes their meaning: the left and top
  edges are \<open>x\<close> and \<open>y\<close>, the right and bottom edges are \<open>x + width\<close> and
  \<open>y + height\<close>, and the centre is half a width and half a height away from the
  top-left corner.
\<close>

record Rect =
  rect_x :: real
  rect_y :: real
  rect_width :: real
  rect_height :: real

definition GetLeft :: "Rect \<Rightarrow> real" where
  "GetLeft r = rect_x r"

definition GetRight :: "Rect \<Rightarrow> real" where
  "GetRight r = rect_x r + rect_width r"

definition GetTop :: "Rect \<Rightarrow> real" where
  "GetTop r = rect_y r"

definition GetBottom :: "Rect \<Rightarrow> real" where
  "GetBottom r = rect_y r + rect_height r"

definition GetWidth :: "Rect \<Rightarrow> real" where
  "GetWidth r = rect_width r"

definition GetHeight :: "Rect \<Rightarrow> real" where
  "GetHeight r = rect_height r"

definition SetX :: "Rect \<Rightarrow> real \<Rightarrow> Rect" where
  "SetX r v = r\<lparr>rect_x := v\<rparr>"

definition SetY :: "Rect \<Rightarrow> real \<Rightarrow> Rect" where
  "SetY r v = r\<lparr>rect_y := v\<rparr>"

definition GetPosition :: "Rect \<Rightarrow> real Point" where
  "GetPosition r = (rect_x r, rect_y r)"

definition GetCentrePosition :: "Rect \<Rightarrow> real Point" where
  "GetCentrePosition r = (rect_x r + rect_width r / 2, rect_y r + rect_height r / 2)"

definition SetCentrePosition :: "Rect \<Rightarrow> real Point \<Rightarrow> Rect" where
  "SetCentrePosition r c =
     r\<lparr>rect_x := fst c - rect_width r / 2, rect_y := snd c - rect_height r / 2\<rparr>"

definition Rect_Within :: "Rect \<Rightarrow> Rect \<Rightarrow> bool" where
  "Rect_Within outer r \<longleftrightarrow>
     GetLeft outer \<le> GetLeft r \<and> GetRight r \<le> GetRight outer \<and>
     GetTop outer \<le> GetTop r \<and> GetBottom r \<le> GetBottom outer"

definition Rect_HasPoint :: "Rect \<Rightarrow> real Point \<Rightarrow> bool" where
  "Rect_HasPoint outer p \<longleftrightarrow>
     GetLeft outer \<le> fst p \<and> fst p \<le> GetRight outer \<and>
     GetTop outer \<le> snd p \<and> snd p \<le> GetBottom outer"

section \<open>Actors and the spatial index\<close>

text \<open>
  An actor is an object on the heap, known by its address. The registry owns the
  objects (\<^verbatim>\<open>std::unique_ptr<Actor>\<close>); the index and every caller hold the bare
  address. A cell of the index is known by the path of child numbers that leads to it
  from the root.
\<close>

type_synonym actor_ref = nat
type_synonym cell_ref = "nat list"

text \<open>
  Modelled from the spec: \<^verbatim>\<open>Actor\<close> is declared outside the two source files. The
  data model lists its state: position, elevation, the bounding boxes of its collision
  component (offsets from the position; \<open>None\<close> when the actor has no collision
  component, the null result of \<^verbatim>\<open>GetComponent<CollisionComponent>\<close>), the
  pending-destroy flag, the back-reference to the cell that holds it, and the resource it
  was made from. \<^verbatim>\<open>SetPosition\<close> is taken to store the position and nothing else.
\<close>

record Actor =
  m_Position :: "real Point"
  m_Elevation :: real
  m_BoundingBoxes :: "Rect list option"
  m_IsPendingDestroy :: bool
  m_QuadTreeCell :: "cell_ref option"
  m_Resource :: string

type_synonym actor_heap = "actor_ref \<rightharpoonup> Actor"

definition Actor_new :: "real Point \<Rightarrow> real \<Rightarrow> Actor" where
  "Actor_new position elevation =
     \<lparr>m_Position = position, m_Elevation = elevation, m_BoundingBoxes = None,
      m_IsPendingDestroy = False, m_QuadTreeCell = None, m_Resource = []\<rparr>"

text \<open>The box of a collider in world space: the local box, centred at the actor's
  position plus the local box's own position (lines 77 and 78 of the source).\<close>

definition worldBoundingBox :: "real Point \<Rightarrow> Rect \<Rightarrow> Rect" where
  "worldBoundingBox actorPosition lBoundingBox =
     SetCentrePosition lBoundingBox (Point_add actorPosition (GetPosition lBoundingBox))"

text \<open>
  Modelled from the spec: \<^verbatim>\<open>QuadTreeCell\<close> is declared outside the two source files.
  A cell has a bounding region, an occupancy threshold, the actor references it holds
  itself, and no children or four.
\<close>

datatype QuadTreeCell =
  QuadTreeCell (cellBoundingBox: Rect) (cellMaxNumActors: nat)
    (cellActors: "actor_ref list") (cellChildren: "QuadTreeCell list")

definition setCellActors :: "actor_ref list \<Rightarrow> QuadTreeCell \<Rightarrow> QuadTreeCell" where
  "setCellActors as c =
     QuadTreeCell (cellBoundingBox c) (cellMaxNumActors c) as (cellChildren c)"

definition setCellChild :: "nat \<Rightarrow> QuadTreeCell \<Rightarrow> QuadTreeCell \<Rightarrow> QuadTreeCell" where
  "setCellChild i k c =
     QuadTreeCell (cellBoundingBox c) (cellMaxNumActors c) (cellActors c)
       ((cellChildren c)[i := k])"

fun cellAt :: "QuadTreeCell \<Rightarrow> cell_ref \<Rightarrow> QuadTreeCell option" where
  "cellAt c [] = Some c"
| "cellAt c (i # p) =
     (if i < length (cellChildren c) then cellAt (cellChildren c ! i) p else None)"

fun cellUpdate :: "(QuadTreeCell \<Rightarrow> QuadTreeCell) \<Rightarrow> cell_ref \<Rightarrow> QuadTreeCell \<Rightarrow> QuadTreeCell" where
  "cellUpdate f [] c = f c"
| "cellUpdate f (i # p) c =
     (if i < length (cellChildren c)
      then setCellChild i (cellUpdate f p (cellChildren c ! i)) c else c)"

text \<open>
  Modelled from the spec: \<^verbatim>\<open>AppendActorList(outList, recurseIntoChildren)\<close> "gathers
  actor references held directly at this cell, and, if requested, all descendants'
  actors, appended to a caller-supplied output collection; order is tree-traversal order
  (this cell first, then children in quadrant order)".
\<close>

fun heldBelow :: "QuadTreeCell \<Rightarrow> actor_ref list" where
  "heldBelow (QuadTreeCell b m as cs) = as @ concat (map heldBelow cs)"

definition AppendActorList :: "QuadTreeCell \<Rightarrow> actor_ref list \<Rightarrow> bool \<Rightarrow> actor_ref list" where
  "AppendActorList c outList recurseIntoChildren =
     outList @ (if recurseIntoChildren then heldBelow c else cellActors c)"

text \<open>
  Modelled from the spec: the cell's own \<^verbatim>\<open>RemoveActor\<close>. "The owning cell is asked to
  erase the reference directly, no tree descent required"; removal succeeds when the
  cell holds the reference, and afterwards the actor "has no owning cell". The path
  stands for the pointer to the owning cell.
\<close>

definition QuadTreeCell_RemoveActor ::
  "cell_ref \<Rightarrow> actor_ref \<Rightarrow> QuadTreeCell \<times> actor_heap \<Rightarrow> bool \<times> QuadTreeCell \<times> actor_heap" where
  "QuadTreeCell_RemoveActor pCell pActor rh =
     (case (cellAt (fst rh) pCell, snd rh pActor) of
        (Some c, Some a) \<Rightarrow>
          if pActor \<in> set (cellActors c)
          then (True,
                cellUpdate (\<lambda>k. setCellActors (remove1 pActor (cellActors k)) k) pCell (fst rh),
                (snd rh)(pActor \<mapsto> a\<lparr>m_QuadTreeCell := None\<rparr>))
          else (False, fst rh, snd rh)
      | _ \<Rightarrow> (False, fst rh, snd rh))"

text \<open>
  Modelled from the spec: \<^verbatim>\<open>InsertActor\<close>. It "determines whether the actor's position
  places it wholly inside one child quadrant (only valid once children exist); if so,
  recurse into that child; otherwise store the reference at this cell and set the
  actor's back-reference to this cell. After insertion, if this cell has no children
  and its stored count exceeds the threshold, subdivide: create four children
  partitioning the region into equal quadrants, then attempt to re-insert every
  currently held actor into the appropriate child (actors that still straddle a
  boundary remain at this level)". An actor is wholly inside a region when its position
  and every world-space bounding box are.

  Re-insertion can subdivide the child in turn, and nothing bounds the depth when
  actors coincide, so the recursion carries fuel: \<open>None\<close> is the insertion that does
  not come back within it (and the insertion of an address that points at no actor).
\<close>

definition actorWithin :: "Rect \<Rightarrow> Actor \<Rightarrow> bool" where
  "actorWithin region a \<longleftrightarrow>
     Rect_HasPoint region (m_Position a) \<and>
     (case m_BoundingBoxes a of
        None \<Rightarrow> True
      | Some boxes \<Rightarrow> list_all (\<lambda>lb. Rect_Within region (worldBoundingBox (m_Position a) lb)) boxes)"

primrec childIndex :: "Actor \<Rightarrow> QuadTreeCell list \<Rightarrow> nat \<Rightarrow> nat option" where
  "childIndex a [] i = None"
| "childIndex a (c # cs) i =
     (if actorWithin (cellBoundingBox c) a then Some i else childIndex a cs (Suc i))"

definition quadrants :: "Rect \<Rightarrow> Rect list" where
  "quadrants r =
     (let w = rect_width r / 2; h = rect_height r / 2 in
      [\<lparr>rect_x = rect_x r, rect_y = rect_y r, rect_width = w, rect_height = h\<rparr>,
       \<lparr>rect_x = rect_x r + w, rect_y = rect_y r, rect_width = w, rect_height = h\<rparr>,
       \<lparr>rect_x = rect_x r, rect_y = rect_y r + h, rect_width = w, rect_height = h\<rparr>,
       \<lparr>rect_x = rect_x r + w, rect_y = rect_y r + h, rect_width = w, rect_height = h\<rparr>])"

definition subdivided :: "QuadTreeCell \<Rightarrow> QuadTreeCell" where
  "subdivided c =
     QuadTreeCell (cellBoundingBox c) (cellMaxNumActors c) []
       (map (\<lambda>q. QuadTreeCell q (cellMaxNumActors c) [] []) (quadrants (cellBoundingBox c)))"

fun InsertActor ::
    "nat \<Rightarrow> cell_ref \<Rightarrow> actor_ref \<Rightarrow> QuadTreeCell \<times> actor_heap \<Rightarrow> (QuadTreeCell \<times> actor_heap) option"
  and reinsertActors ::
    "nat \<Rightarrow> cell_ref \<Rightarrow> actor_ref list \<Rightarrow> QuadTreeCell \<times> actor_heap \<Rightarrow> (QuadTreeCell \<times> actor_heap) option"
where
  "InsertActor 0 here pActor ch = None"
| "InsertActor (Suc fuel) here pActor ch =
     (case snd ch pActor of
        None \<Rightarrow> None
      | Some a \<Rightarrow>
          (case childIndex a (cellChildren (fst ch)) 0 of
             Some i \<Rightarrow>
               (case InsertActor fuel (here @ [i]) pActor (cellChildren (fst ch) ! i, snd ch) of
                  None \<Rightarrow> None
                | Some kh \<Rightarrow> Some (setCellChild i (fst kh) (fst ch), snd kh))
           | None \<Rightarrow>
               (let c = setCellActors (cellActors (fst ch) @ [pActor]) (fst ch);
                    h = (snd ch)(pActor \<mapsto> a\<lparr>m_QuadTreeCell := Some here\<rparr>)
                in if cellChildren c = [] \<and> cellMaxNumActors c < length (cellActors c)
                   then reinsertActors fuel here (cellActors c) (subdivided c, h)
                   else Some (c, h))))"
| "reinsertActors fuel here [] ch = Some ch"
| "reinsertActors fuel here (pActor # rest) ch =
     (case snd ch pActor of
        None \<Rightarrow> None
      | Some a \<Rightarrow>
          (case childIndex a (cellChildren (fst ch)) 0 of
             None \<Rightarrow>
               reinsertActors fuel here rest
                 (setCellActors (cellActors (fst ch) @ [pActor]) (fst ch), snd ch)
           | Some i \<Rightarrow>
               (case InsertActor fuel (here @ [i]) pActor (cellChildren (fst ch) ! i, snd ch) of
                  None \<Rightarrow> None
                | Some kh \<Rightarrow>
                    reinsertActors fuel here rest (setCellChild i (fst kh) (fst ch), snd kh))))"

section \<open>The scene graph\<close>

datatype RenderPerspective = OBLIQUE | ISOMETRIC

text \<open>Of the renderer the scene graph reads only the centre of the screen.\<close>

record Renderer =
  screenCentrePosition :: "int Point"

text \<open>
  The members of \<^verbatim>\<open>class SceneGraph\<close>, under their own names. The actor objects
  that the \<^verbatim>\<open>unique_ptr\<close>s of the registry own live in \<open>heap\<close>, and \<open>nextActor\<close>
  is the address the next \<^verbatim>\<open>make_unique\<close> returns. The tile maps are left out:
  nothing below reads them.
\<close>

record SceneGraph =
  m_RendererRef :: Renderer
  m_Actors :: "actor_ref list"
  m_TileWidth :: int
  m_TileHeight :: int
  m_HalfTileWidth :: int
  m_HalfTileHeight :: int
  m_Zoom :: real
  m_wCameraPosition :: "real Point"
  m_wCameraElevation :: real
  m_sCameraPosition :: "real Point"
  m_QuadTreeRoot :: QuadTreeCell
  m_RenderPerspective :: RenderPerspective
  m_NewActors :: "actor_ref list"
  m_IsUpdatingActors :: bool
  heap :: actor_heap
  nextActor :: actor_ref

subsection \<open>Tile dimensions, perspective, zoom\<close>

definition SetTileDimensions :: "int \<Rightarrow> int \<Rightarrow> SceneGraph \<Rightarrow> SceneGraph" where
  "SetTileDimensions tileWidth tileHeight s =
     s\<lparr>m_TileWidth := tileWidth,
       m_TileHeight := tileHeight,
       m_HalfTileWidth := truncate_int (int_to_float tileWidth / 2),
       m_HalfTileHeight := truncate_int (int_to_float tileHeight / 2)\<rparr>"

definition GetTileDimensions :: "SceneGraph \<Rightarrow> int Point" where
  "GetTileDimensions s = (m_TileHeight s, m_TileWidth s)"

definition SetRenderPerspective :: "RenderPerspective \<Rightarrow> SceneGraph \<Rightarrow> SceneGraph" where
  "SetRenderPerspective renderPerspective s = s\<lparr>m_RenderPerspective := renderPerspective\<rparr>"

definition SetZoom :: "real \<Rightarrow> SceneGraph \<Rightarrow> SceneGraph" where
  "SetZoom zoom s = s\<lparr>m_Zoom := zoom\<rparr>"

subsection \<open>Coordinate transforms\<close>

text \<open>The \<^verbatim>\<open>default\<close> branch of the two switches is for a value outside the
  enumeration; a \<open>RenderPerspective\<close> here is one of the two.\<close>

definition ToCartesianCoord :: "SceneGraph \<Rightarrow> real Point \<Rightarrow> real Point" where
  "ToCartesianCoord s isometricCoord =
     (case m_RenderPerspective s of
        OBLIQUE \<Rightarrow>
          (fst isometricCoord * int_to_float (m_TileWidth s),
           snd isometricCoord * int_to_float (m_TileHeight s))
      | ISOMETRIC \<Rightarrow>
          ((fst isometricCoord - snd isometricCoord) * int_to_float (m_HalfTileWidth s),
           (fst isometricCoord + snd isometricCoord) * int_to_float (m_HalfTileHeight s)))"

definition ToIsometricCoord :: "SceneGraph \<Rightarrow> int Point \<Rightarrow> error + real Point" where
  "ToIsometricCoord s cartesianCoord =
     (case m_RenderPerspective s of
        OBLIQUE \<Rightarrow>
          ebind (fdiv (int_to_float (fst cartesianCoord)) (int_to_float (m_TileWidth s))) (\<lambda>x.
          ebind (fdiv (int_to_float (snd cartesianCoord)) (int_to_float (m_TileHeight s))) (\<lambda>y.
          Inr (x, y)))
      | ISOMETRIC \<Rightarrow>
          ebind (fdiv (int_to_float (snd cartesianCoord)) (int_to_float (m_TileHeight s))) (\<lambda>a.
          ebind (fdiv (int_to_float (fst cartesianCoord)) (int_to_float (m_TileWidth s))) (\<lambda>b.
          Inr (a + b, a - b))))"

definition ToScreenPosition :: "SceneGraph \<Rightarrow> real Point \<Rightarrow> real \<Rightarrow> real Point" where
  "ToScreenPosition s wPosition wElevation =
     (let sPosition = ToCartesianCoord s wPosition;
          screenCentrePosition = screenCentrePosition (m_RendererRef s);
          wScreenCentreOffset =
            (int_to_float (fst screenCentrePosition), int_to_float (snd screenCentrePosition))
      in Point_add (Point_scale (Point_sub sPosition (m_sCameraPosition s)) (m_Zoom s))
           wScreenCentreOffset)"

definition ToWorldPosition :: "SceneGraph \<Rightarrow> int Point \<Rightarrow> error + real Point" where
  "ToWorldPosition s sPosition =
     ebind (ToIsometricCoord s (iPoint_sub sPosition (screenCentrePosition (m_RendererRef s))))
       (\<lambda>wPosition.
          ebind (if m_Zoom s \<noteq> 0 then Point_div wPosition (m_Zoom s) else Inr wPosition)
            (\<lambda>wPosition. Inr (Point_add wPosition (m_wCameraPosition s))))"

subsection \<open>Camera\<close>

definition SetCameraPosition :: "real Point \<Rightarrow> real \<Rightarrow> SceneGraph \<Rightarrow> SceneGraph" where
  "SetCameraPosition wCameraPosition wCameraElevation s =
     (let s1 = s\<lparr>m_wCameraPosition := wCameraPosition,
                  m_wCameraElevation := wCameraElevation\<rparr>;
          s2 = s1\<lparr>m_sCameraPosition := ToCartesianCoord s1 wCameraPosition\<rparr>
      in s2\<lparr>m_sCameraPosition := Point_floor (m_sCameraPosition s2)\<rparr>)"

text \<open>What the cached screen-space camera position is meant to hold.\<close>

definition cameraCacheCurrent :: "SceneGraph \<Rightarrow> bool" where
  "cameraCacheCurrent s \<longleftrightarrow>
     m_sCameraPosition s = Point_floor (ToCartesianCoord s (m_wCameraPosition s))"

subsection \<open>Tile-map culling\<close>

text \<open>
  The head of \<^verbatim>\<open>RenderTileMaps\<close> (lines 117 to 126): the extent of the culling
  box and the tile range it gives. What follows in the source walks the tile maps and
  issues draw calls on the renderer, which are outside this development.
\<close>

definition cullingBoxExtent :: "SceneGraph \<Rightarrow> error + real" where
  "cullingBoxExtent s =
     (let screenCentrePosition = screenCentrePosition (m_RendererRef s) in
      ebind (fdiv (int_to_float (fst screenCentrePosition)) (int_to_float (m_TileWidth s) * m_Zoom s)) (\<lambda>a.
      ebind (fdiv (int_to_float (snd screenCentrePosition)) (int_to_float (m_TileHeight s) * m_Zoom s)) (\<lambda>b.
      Inr (a + b))))"

definition RenderTileMaps_cullingBox :: "SceneGraph \<Rightarrow> error + (int \<times> int \<times> int \<times> int)" where
  "RenderTileMaps_cullingBox s =
     ebind (cullingBoxExtent s) (\<lambda>cullingBoxExtent.
       (let minX = roundf (fst (m_wCameraPosition s) - cullingBoxExtent);
            minY = roundf (snd (m_wCameraPosition s) - cullingBoxExtent);
            maxX = roundf (fst (m_wCameraPosition s) + cullingBoxExtent) + 1;
            maxY = roundf (snd (m_wCameraPosition s) + cullingBoxExtent) + 1
        in Inr (max minX 0, max minY 0, maxX, maxY)))"

subsection \<open>Ray casts and picking\<close>

text \<open>
  The two queries of the quad tree are outside the source files; the scene graph only
  hands its arguments on. They are parameters here: any function of the root cell, the
  actors and the arguments.
\<close>

type_synonym quadtree_raycast =
  "QuadTreeCell \<Rightarrow> actor_heap \<Rightarrow> real Point \<Rightarrow> real Point \<Rightarrow> actor_ref list \<Rightarrow> actor_ref list"

type_synonym quadtree_raycast_first_hit =
  "QuadTreeCell \<Rightarrow> actor_heap \<Rightarrow> real Point \<Rightarrow> real Point \<Rightarrow> actor_ref list \<Rightarrow> actor_ref option"

definition RaycastFirstHit ::
  "quadtree_raycast_first_hit \<Rightarrow> SceneGraph \<Rightarrow> real Point \<Rightarrow> real Point \<Rightarrow> actor_ref list \<Rightarrow> actor_ref option" where
  "RaycastFirstHit qt s origin endPoint actorsToIgnore =
     qt (m_QuadTreeRoot s) (heap s) origin endPoint actorsToIgnore"

definition RaycastFirstHit_direction ::
  "quadtree_raycast_first_hit \<Rightarrow> SceneGraph \<Rightarrow> real Point \<Rightarrow> real Point \<Rightarrow> real \<Rightarrow> actor_ref list \<Rightarrow> actor_ref option" where
  "RaycastFirstHit_direction qt s origin direction distance actorsToIgnore =
     RaycastFirstHit qt s origin (Point_add origin (Point_scale direction distance)) actorsToIgnore"

definition Raycast ::
  "quadtree_raycast \<Rightarrow> SceneGraph \<Rightarrow> real Point \<Rightarrow> real Point \<Rightarrow> actor_ref list \<Rightarrow> actor_ref list" where
  "Raycast qt s origin endPoint actorsToIgnore =
     qt (m_QuadTreeRoot s) (heap s) origin endPoint actorsToIgnore"

definition Raycast_direction ::
  "quadtree_raycast \<Rightarrow> SceneGraph \<Rightarrow> real Point \<Rightarrow> real Point \<Rightarrow> real \<Rightarrow> actor_ref list \<Rightarrow> actor_ref list" where
  "Raycast_direction qt s origin direction distance actorsToIgnore =
     Raycast qt s origin (Point_add origin (Point_scale direction distance)) actorsToIgnore"

definition PickActor ::
  "quadtree_raycast_first_hit \<Rightarrow> SceneGraph \<Rightarrow> int Point \<Rightarrow> error + actor_ref option" where
  "PickActor qt s sPosition =
     ebind (ToWorldPosition s sPosition) (\<lambda>wPosition.
       Inr (qt (m_QuadTreeRoot s) (heap s) wPosition wPosition []))"

subsection \<open>Adding and removing actors\<close>

text \<open>
  \<^verbatim>\<open>AddActor\<close> takes over the actor object, files its address in the registry, or in
  the buffer of new actors while an update pass runs, and inserts it into the quad tree
  at the root. \<open>None\<close> is the insertion that runs out of fuel.
\<close>

definition AddActor :: "nat \<Rightarrow> Actor \<Rightarrow> SceneGraph \<Rightarrow> (actor_ref \<times> SceneGraph) option" where
  "AddActor fuel pActor s =
     (let pActorRef = nextActor s;
          s1 = s\<lparr>heap := (heap s)(pActorRef \<mapsto> pActor), nextActor := Suc pActorRef\<rparr>;
          s2 = (if m_IsUpdatingActors s1
                then s1\<lparr>m_NewActors := m_NewActors s1 @ [pActorRef]\<rparr>
                else s1\<lparr>m_Actors := m_Actors s1 @ [pActorRef]\<rparr>)
      in case InsertActor fuel [] pActorRef (m_QuadTreeRoot s2, heap s2) of
           None \<Rightarrow> None
         | Some rh \<Rightarrow> Some (pActorRef, s2\<lparr>m_QuadTreeRoot := fst rh, heap := snd rh\<rparr>))"

text \<open>\<^verbatim>\<open>RemoveActor\<close> asks the actor for its cell and hands the removal to that cell;
  an actor without a cell gives \<open>False\<close>. An address that points at no actor is treated
  like an actor without a cell.\<close>

definition RemoveActor :: "actor_ref \<Rightarrow> SceneGraph \<Rightarrow> bool \<times> SceneGraph" where
  "RemoveActor pActor s =
     (case heap s pActor of
        None \<Rightarrow> (False, s)
      | Some a \<Rightarrow>
          (case m_QuadTreeCell a of
             Some pCell \<Rightarrow>
               (let r = QuadTreeCell_RemoveActor pCell pActor (m_QuadTreeRoot s, heap s)
                in (fst r, s\<lparr>m_QuadTreeRoot := fst (snd r), heap := snd (snd r)\<rparr>))
           | None \<Rightarrow> (False, s)))"

subsection \<open>Spawning\<close>

text \<open>
  The actor factory is outside the source files. Its one operation,
  \<^verbatim>\<open>AddComponentsAndInitaliseActor(pActor, resource)\<close>, receives the new actor by
  reference and answers whether it could initialise it; here it is a parameter that
  maps the resource name and the new actor to the answer and the actor as it leaves it.
  The pointer itself stays the one \<^verbatim>\<open>make_unique\<close> returned, so the
  \<^verbatim>\<open>assert(pActor)\<close> of the template holds and has no branch of its own.
\<close>

type_synonym actor_factory = "string \<Rightarrow> Actor \<Rightarrow> bool \<times> Actor"

definition SpawnActor ::
  "actor_factory \<Rightarrow> nat \<Rightarrow> string \<Rightarrow> real Point \<Rightarrow> real \<Rightarrow> SceneGraph \<Rightarrow> (actor_ref option \<times> SceneGraph) option" where
  "SpawnActor factory fuel actorXmlFilename position elevation s =
     (let r = factory actorXmlFilename (Actor_new position elevation) in
      if \<not> fst r then Some (None, s)
      else (case AddActor fuel (snd r) s of
              None \<Rightarrow> None
            | Some (pActorRef, s') \<Rightarrow> Some (Some pActorRef, s')))"

text \<open>The overload with the file name alone calls the one above with the default point
  and elevation \<open>0\<close>.\<close>

definition SpawnActor_filename ::
  "actor_factory \<Rightarrow> nat \<Rightarrow> string \<Rightarrow> SceneGraph \<Rightarrow> (actor_ref option \<times> SceneGraph) option" where
  "SpawnActor_filename factory fuel actorXmlFilename s =
     SpawnActor factory fuel actorXmlFilename (0, 0) 0 s"

text \<open>The template \<^verbatim>\<open>SpawnActor<ActorType>\<close> of the header: the constructor
  arguments it forwards are the position and the elevation. It calls the factory and
  drops its answer.\<close>

definition SpawnActor_template ::
  "actor_factory \<Rightarrow> nat \<Rightarrow> string \<Rightarrow> real Point \<Rightarrow> real \<Rightarrow> SceneGraph \<Rightarrow> (actor_ref option \<times> SceneGraph) option" where
  "SpawnActor_template factory fuel jsonResource position elevation s =
     (let r = factory jsonResource (Actor_new position elevation) in
      case AddActor fuel (snd r) s of
        None \<Rightarrow> None
      | Some (pActorRef, s') \<Rightarrow> Some (Some pActorRef, s'))"

subsection \<open>The update pass\<close>

text \<open>
  \<^verbatim>\<open>Actor::Update\<close> is outside the source files. What matters of it here is what it
  asks of the scene graph while the pass runs: to spawn actors, through any of the three
  entry points, and to mark actors pending-destroy. The behaviour of the actors is a
  parameter: for an actor, the frame time and the scene as it stands, the requests its
  update makes, in order.
\<close>

datatype ActorRequest =
    RequestSpawn string "real Point" real
  | RequestSpawnFilename string
  | RequestSpawnTemplate string "real Point" real
  | RequestDestroy actor_ref

type_synonym actor_logic = "actor_ref \<Rightarrow> real \<Rightarrow> SceneGraph \<Rightarrow> ActorRequest list"

definition markPendingDestroy :: "actor_ref \<Rightarrow> SceneGraph \<Rightarrow> SceneGraph" where
  "markPendingDestroy pActor s =
     (case heap s pActor of
        None \<Rightarrow> s
      | Some a \<Rightarrow> s\<lparr>heap := (heap s)(pActor \<mapsto> a\<lparr>m_IsPendingDestroy := True\<rparr>)\<rparr>)"

fun perform :: "actor_factory \<Rightarrow> nat \<Rightarrow> ActorRequest \<Rightarrow> SceneGraph \<Rightarrow> SceneGraph option" where
  "perform factory fuel (RequestSpawn f p e) s = map_option snd (SpawnActor factory fuel f p e s)"
| "perform factory fuel (RequestSpawnFilename f) s = map_option snd (SpawnActor_filename factory fuel f s)"
| "perform factory fuel (RequestSpawnTemplate f p e) s =
     map_option snd (SpawnActor_template factory fuel f p e s)"
| "perform factory fuel (RequestDestroy pActor) s = Some (markPendingDestroy pActor s)"

fun performAll :: "actor_factory \<Rightarrow> nat \<Rightarrow> ActorRequest list \<Rightarrow> SceneGraph \<Rightarrow> SceneGraph option" where
  "performAll factory fuel [] s = Some s"
| "performAll factory fuel (r # rs) s =
     (case perform factory fuel r s of
        None \<Rightarrow> None
      | Some s' \<Rightarrow> performAll factory fuel rs s')"

text \<open>The loop of \<^verbatim>\<open>Update\<close> over the registry. It returns the actors whose update
  ran, in order, with the scene. The source walks the registry itself; the list walked
  here is the registry at the start of the pass, which is the same, since the requests
  do not touch the registry while the pass runs (lemma \<open>performAll_updating\<close>
  below).\<close>

fun updateActors ::
  "actor_logic \<Rightarrow> actor_factory \<Rightarrow> nat \<Rightarrow> real \<Rightarrow> actor_ref list \<Rightarrow> SceneGraph \<Rightarrow> (actor_ref list \<times> SceneGraph) option" where
  "updateActors logic factory fuel deltaTime [] s = Some ([], s)"
| "updateActors logic factory fuel deltaTime (pActor # rest) s =
     (case performAll factory fuel (logic pActor deltaTime s) s of
        None \<Rightarrow> None
      | Some s' \<Rightarrow>
          (case updateActors logic factory fuel deltaTime rest s' of
             None \<Rightarrow> None
           | Some (updated, s'') \<Rightarrow> Some (pActor # updated, s'')))"

definition pendingDestroy :: "SceneGraph \<Rightarrow> actor_ref \<Rightarrow> bool" where
  "pendingDestroy s pActor =
     (case heap s pActor of None \<Rightarrow> False | Some a \<Rightarrow> m_IsPendingDestroy a)"

text \<open>
  \<^verbatim>\<open>std::partition\<close> moves the elements that satisfy the predicate to the front and
  returns where the second group starts. The standard fixes the two groups and leaves
  the order inside them to the library; on the iterators of a vector the libraries
  run the same two-pointer loop, which is the one written here. It skips the elements
  at the front that satisfy the predicate; at the first \<open>x\<close> that does not, it walks
  back from the end over the elements that do not satisfy it (\<open>behind\<close>, which stay
  where they are) to the last one that does, swaps that one with \<open>x\<close>, and goes on
  between the two. The result is the pair of the first group and the second group, in
  the order they have in the vector afterwards.
\<close>

function std_partition :: "('a \<Rightarrow> bool) \<Rightarrow> 'a list \<Rightarrow> 'a list \<times> 'a list" where
  "std_partition P [] = ([], [])"
| "std_partition P (x # xs) =
     (if P x then (let r = std_partition P xs in (x # fst r, snd r))
      else (let front = rev (dropWhile (Not \<circ> P) (rev xs));
                behind = rev (takeWhile (Not \<circ> P) (rev xs))
            in if front = [] then ([], x # xs)
               else (let r = std_partition P (butlast front)
                     in (last front # fst r, snd r @ x # behind))))"
  by pat_completeness auto
termination
proof (relation "measure (\<lambda>(P, xs). length xs)", goal_cases)
  case 1
  then show ?case by simp
next
  case (2 P x xs)
  then show ?case by simp
next
  case (3 P x xs front behind)
  have "length (dropWhile (Not \<circ> P) (rev xs)) \<le> length (rev xs)"
    by (rule length_dropWhile_le)
  with 3 show ?case by simp
qed

text \<open>
  \<open>destroyBegin\<close> is the start of the second group, so \<open>snd\<close> of the pair is the
  range from \<open>destroyBegin\<close> to the end: these are removed from the quad tree, in
  that order, and erased, which frees them.
\<close>

definition DestroyPendingActors :: "SceneGraph \<Rightarrow> SceneGraph" where
  "DestroyPendingActors s =
     (let groups = std_partition (pendingDestroy s) (m_Actors s);
          s1 = foldl (\<lambda>s' pActor. snd (RemoveActor pActor s')) s (snd groups)
      in s1\<lparr>m_Actors := fst groups,
            heap := foldl (\<lambda>h pActor. h(pActor := None)) (heap s1) (snd groups)\<rparr>)"

definition Update ::
  "actor_logic \<Rightarrow> actor_factory \<Rightarrow> nat \<Rightarrow> real \<Rightarrow> SceneGraph \<Rightarrow> (actor_ref list \<times> SceneGraph) option" where
  "Update logic factory fuel deltaTime s =
     (let s1 = s\<lparr>m_IsUpdatingActors := True\<rparr> in
      case updateActors logic factory fuel deltaTime (m_Actors s1) s1 of
        None \<Rightarrow> None
      | Some (updated, s2) \<Rightarrow>
          (let s3 = s2\<lparr>m_Actors := m_Actors s2 @ m_NewActors s2\<rparr>;
               s4 = s3\<lparr>m_NewActors := []\<rparr>;
               s5 = DestroyPendingActors s4
           in Some (updated, s5\<lparr>m_IsUpdatingActors := False\<rparr>)))"

subsection \<open>World bounds\<close>

text \<open>The four tests of \<^verbatim>\<open>ResolveCollisions\<close> on one world-space box, in the order
  of the source.\<close>

definition clampBoundingBox :: "Rect \<Rightarrow> Rect \<Rightarrow> Rect" where
  "clampBoundingBox rootBoundingBox wBoundingBox =
     (let b1 = (if GetLeft wBoundingBox < GetLeft rootBoundingBox
                then SetX wBoundingBox (GetLeft rootBoundingBox) else wBoundingBox);
          b2 = (if GetRight b1 > GetRight rootBoundingBox
                then SetX b1 (GetRight rootBoundingBox - GetWidth b1) else b1);
          b3 = (if GetTop b2 < GetTop rootBoundingBox
                then SetY b2 (GetTop rootBoundingBox) else b2);
          b4 = (if GetBottom b3 > GetBottom rootBoundingBox
                then SetY b3 (GetBottom rootBoundingBox - GetHeight b3) else b3)
      in b4)"

text \<open>One turn of the loop over the colliders: the position the actor is given.\<close>

definition clampStep :: "Rect \<Rightarrow> real Point \<Rightarrow> Rect \<Rightarrow> real Point" where
  "clampStep rootBoundingBox actorPosition lBoundingBox =
     Point_sub
       (GetCentrePosition (clampBoundingBox rootBoundingBox (worldBoundingBox actorPosition lBoundingBox)))
       (GetPosition lBoundingBox)"

definition clampActor :: "Rect \<Rightarrow> Actor \<Rightarrow> Actor" where
  "clampActor rootBoundingBox a =
     (case m_BoundingBoxes a of
        None \<Rightarrow> a
      | Some boxes \<Rightarrow> a\<lparr>m_Position := foldl (clampStep rootBoundingBox) (m_Position a) boxes\<rparr>)"

definition clampActors :: "SceneGraph \<Rightarrow> SceneGraph" where
  "clampActors s =
     (let actors = AppendActorList (m_QuadTreeRoot s) [] False;
          rootBoundingBox = cellBoundingBox (m_QuadTreeRoot s)
      in s\<lparr>heap :=
             foldl (\<lambda>h pActor. case h pActor of
                                 None \<Rightarrow> h
                               | Some a \<Rightarrow> h(pActor \<mapsto> clampActor rootBoundingBox a))
               (heap s) actors\<rparr>)"

text \<open>
  The last statement of \<^verbatim>\<open>ResolveCollisions\<close> hands over to the quad tree's own
  pairwise resolution, which is outside the source files: a parameter on the root cell
  and the actors.
\<close>

type_synonym quadtree_resolve = "QuadTreeCell \<times> actor_heap \<Rightarrow> QuadTreeCell \<times> actor_heap"

definition ResolveCollisions :: "quadtree_resolve \<Rightarrow> SceneGraph \<Rightarrow> SceneGraph" where
  "ResolveCollisions qt s =
     (let s1 = clampActors s;
          rh = qt (m_QuadTreeRoot s1, heap s1)
      in s1\<lparr>m_QuadTreeRoot := fst rh, heap := snd rh\<rparr>)"

text \<open>Every bounding box of the actor, in world space, lies within the region.\<close>

definition boxesWithin :: "Rect \<Rightarrow> Actor \<Rightarrow> bool" where
  "boxesWithin region a \<longleftrightarrow>
     (case m_BoundingBoxes a of
        None \<Rightarrow> True
      | Some boxes \<Rightarrow> list_all (\<lambda>lb. Rect_Within region (worldBoundingBox (m_Position a) lb)) boxes)"

subsection \<open>Construction\<close>

text \<open>
  The constructor sets the root cell to the rectangle \<open>(-0.5, -0.5, width, length)\<close>
  of the tile map (the two sizes cast to \<^verbatim>\<open>float\<close>), the zoom to \<open>1\<close>, the tile dimensions, and last the camera, "to
  ensure \<open>m_sCameraPosition\<close> is the correct camera position in screen-space". It
  gives no value to the perspective and to the camera elevation: what they hold at
  first is a parameter here.
\<close>

definition SceneGraph_new ::
  "Renderer \<Rightarrow> nat \<Rightarrow> nat \<Rightarrow> nat \<Rightarrow> int \<Rightarrow> int \<Rightarrow> RenderPerspective \<Rightarrow> real \<Rightarrow> SceneGraph" where
  "SceneGraph_new renderer mapWidth mapLength maxObjectsInCell tileWidth tileHeight
       perspective0 elevation0 =
     SetCameraPosition (0, 0) elevation0
       (SetTileDimensions tileWidth tileHeight
          \<lparr>m_RendererRef = renderer,
           m_Actors = [],
           m_TileWidth = 0, m_TileHeight = 0, m_HalfTileWidth = 0, m_HalfTileHeight = 0,
           m_Zoom = 1,
           m_wCameraPosition = (0, 0),
           m_wCameraElevation = elevation0,
           m_sCameraPosition = (0, 0),
           m_QuadTreeRoot =
             QuadTreeCell
               \<lparr>rect_x = - (1 / 2), rect_y = - (1 / 2),
                rect_width = real (round_to_float mapWidth),
                rect_height = real (round_to_float mapLength)\<rparr>
               maxObjectsInCell [] [],
           m_RenderPerspective = perspective0,
           m_NewActors = [],
           m_IsUpdatingActors = False,
           heap = Map.empty,
           nextActor = 0\<rparr>)"

subsection \<open>Being indexed\<close>

text \<open>\<open>owningCell\<close> is \<^verbatim>\<open>GetQuadTreeCell\<close>: the actor's back-reference. An actor is
  indexed when it has an owning cell and that cell of the tree holds its reference.\<close>

definition owningCell :: "SceneGraph \<Rightarrow> actor_ref \<Rightarrow> cell_ref option" where
  "owningCell s pActor = (case heap s pActor of None \<Rightarrow> None | Some a \<Rightarrow> m_QuadTreeCell a)"

definition indexed :: "SceneGraph \<Rightarrow> actor_ref \<Rightarrow> bool" where
  "indexed s pActor \<longleftrightarrow>
     (case owningCell s pActor of
        None \<Rightarrow> False
      | Some p \<Rightarrow>
          (case cellAt (m_QuadTreeRoot s) p of
             None \<Rightarrow> False
           | Some c \<Rightarrow> pActor \<in> set (cellActors c)))"

text \<open>The index holds every reference once, and only references that were handed
  out.\<close>

definition indexHoldsOnce :: "SceneGraph \<Rightarrow> bool" where
  "indexHoldsOnce s \<longleftrightarrow>
     distinct (heldBelow (m_QuadTreeRoot s)) \<and>
     list_all (\<lambda>p. p < nextActor s) (heldBelow (m_QuadTreeRoot s))"

subsection \<open>Boxes that fit the world\<close>

text \<open>
  Two boxes of one actor fit the region together when the span from the left edge of
  the second to the right edge of the first, and from the top edge of the second to the
  bottom edge of the first, is no more than the region's width and height. The boxes
  of an actor fit together when every two of them do, in both orders, and each with
  itself: then some position of the actor puts them all within the region.
\<close>

definition spanFits :: "Rect \<Rightarrow> Rect \<Rightarrow> Rect \<Rightarrow> bool" where
  "spanFits region b1 b2 \<longleftrightarrow>
     GetRight (worldBoundingBox (0, 0) b1) - GetLeft (worldBoundingBox (0, 0) b2) \<le> GetWidth region \<and>
     GetBottom (worldBoundingBox (0, 0) b1) - GetTop (worldBoundingBox (0, 0) b2) \<le> GetHeight region"

definition boxesFitTogether :: "Rect \<Rightarrow> Rect list \<Rightarrow> bool" where
  "boxesFitTogether region boxes \<longleftrightarrow>
     list_all (\<lambda>b1. list_all (\<lambda>b2. spanFits region b1 b2) boxes) boxes"

definition boxesFit :: "Rect \<Rightarrow> Actor \<Rightarrow> bool" where
  "boxesFit region a \<longleftrightarrow>
     (case m_BoundingBoxes a of
        None \<Rightarrow> True
      | Some boxes \<Rightarrow> boxesFitTogether region boxes)"

text \<open>The turn of the loop over the actors, on the heap.\<close>

definition clampAt :: "Rect \<Rightarrow> actor_heap \<Rightarrow> actor_ref \<Rightarrow> actor_heap" where
  "clampAt R h pActor = (case h pActor of None \<Rightarrow> h | Some a \<Rightarrow> h(pActor \<mapsto> clampActor R a))"

text \<open>An actor of the scene whose boxes all lie within the root region, and one whose
  boxes fit the root region together.\<close>

definition actorWithinWorld :: "SceneGraph \<Rightarrow> actor_ref \<Rightarrow> bool" where
  "actorWithinWorld s pActor \<longleftrightarrow>
     (case heap s pActor of
        None \<Rightarrow> False
      | Some a \<Rightarrow> boxesWithin (cellBoundingBox (m_QuadTreeRoot s)) a)"

definition actorFitsWorld :: "SceneGraph \<Rightarrow> actor_ref \<Rightarrow> bool" where
  "actorFitsWorld s pActor \<longleftrightarrow>
     (case heap s pActor of
        None \<Rightarrow> False
      | Some a \<Rightarrow> boxesFit (cellBoundingBox (m_QuadTreeRoot s)) a)"

text \<open>The pairwise resolution of the quad tree in a scene where no two boxes overlap:
  there is no pair to separate, so nothing moves.\<close>

definition resolveNothing :: quadtree_resolve where
  "resolveNothing rh = rh"


section \<open>Example scenes\<close>

text \<open>A window of 800 by 600 pixels over a map of 10 by 10 tiles, at most 4 actors in
  a cell.\<close>

definition window :: Renderer where
  "window = \<lparr>screenCentrePosition = (400, 300)\<rparr>"

definition sceneOblique32 :: SceneGraph where
  "sceneOblique32 = SceneGraph_new window 10 10 4 32 32 OBLIQUE 0"

definition sceneIsometric64x32 :: SceneGraph where
  "sceneIsometric64x32 = SceneGraph_new window 10 10 4 64 32 ISOMETRIC 0"

definition sceneIsometric4x3 :: SceneGraph where
  "sceneIsometric4x3 = SceneGraph_new window 10 10 4 4 3 ISOMETRIC 0"

definition sceneOblique4x3 :: SceneGraph where
  "sceneOblique4x3 = SceneGraph_new window 10 10 4 4 3 OBLIQUE 0"

text \<open>The oblique scene after one actor without colliders was added at \<open>(1, 1)\<close>.\<close>

definition sceneOneActor :: SceneGraph where
  "sceneOneActor =
     (case AddActor 8 (Actor_new (1, 1) 0) sceneOblique32 of
        None \<Rightarrow> sceneOblique32
      | Some (pActorRef, s) \<Rightarrow> s)"

text \<open>The oblique scene after one actor was added at \<open>(5, 5)\<close> whose single box is
  20 wide, twice the world; and after one actor was added at \<open>(20, 5)\<close>, outside the
  world, with two small boxes.\<close>

definition sceneWideActor :: SceneGraph where
  "sceneWideActor =
     (case AddActor 8
             ((Actor_new (5, 5) 0)
                \<lparr>m_BoundingBoxes :=
                   Some [\<lparr>rect_x = 0, rect_y = 0, rect_width = 20, rect_height = 1\<rparr>]\<rparr>)
             sceneOblique32 of
        None \<Rightarrow> sceneOblique32
      | Some (pActorRef, s) \<Rightarrow> s)"

definition sceneStrayActor :: SceneGraph where
  "sceneStrayActor =
     (case AddActor 8
             ((Actor_new (20, 5) 0)
                \<lparr>m_BoundingBoxes :=
                   Some [\<lparr>rect_x = 0, rect_y = 0, rect_width = 1, rect_height = 1\<rparr>,
                         \<lparr>rect_x = 1, rect_y = 0, rect_width = 2, rect_height = 1\<rparr>]\<rparr>)
             sceneOblique32 of
        None \<Rightarrow> sceneOblique32
      | Some (pActorRef, s) \<Rightarrow> s)"





text \<open>Two factories: one that fails on every resource and leaves the actor as it got
  it, and one that succeeds and records the resource.\<close>

definition failingFactory :: actor_factory where
  "failingFactory resource a = (False, a)"

definition plainFactory :: actor_factory where
  "plainFactory resource a = (True, a\<lparr>m_Resource := resource\<rparr>)"

text \<open>The scene with one actor after a second was added at \<open>(2, 2)\<close>.\<close>

definition sceneTwoActors :: SceneGraph where
  "sceneTwoActors =
     (case AddActor 8 (Actor_new (2, 2) 0) sceneOneActor of
        None \<Rightarrow> sceneOneActor
      | Some (pActorRef, s) \<Rightarrow> s)"

text \<open>Actor 0 asks for its own destruction; the other actors ask for nothing.\<close>

definition destroysItself :: actor_logic where
  "destroysItself pActor deltaTime s = (if pActor = 0 then [RequestDestroy 0] else [])"

text \<open>Every actor spawns one actor each time it is updated.\<close>

definition spawnsOne :: actor_logic where
  "spawnsOne pActor deltaTime s = [RequestSpawn ''child.xml'' (3, 3) 0]"

section \<open>Properties: tile dimensions and coordinate transforms\<close>

lemma ebind_Inr: "ebind (Inr v) f = f v"
  by (simp add: ebind_def)

lemma ebind_Inl: "ebind (Inl e) f = Inl e"
  by (simp add: ebind_def)

lemma fdiv_nonzero: "b \<noteq> 0 \<Longrightarrow> fdiv a b = Inr (a / b)"
  by (simp add: fdiv_def)

lemma fdiv_zero: "fdiv a 0 = Inl DivisionByZero"
  by (simp add: fdiv_def)

subsection \<open>The conversion to float\<close>

lemma float_exponent_small: "a < 2 ^ 24 \<Longrightarrow> float_exponent a = 0"
  by (subst float_exponent.simps) simp

lemma round_to_float_small: "a < 2 ^ 24 \<Longrightarrow> round_to_float a = a"
  by (simp add: round_to_float_def float_exponent_small)

lemma int_to_float_small: "\<bar>n\<bar> < 2 ^ 24 \<Longrightarrow> int_to_float n = of_int n"
  by (auto simp: int_to_float_def round_to_float_small nat_less_iff)

lemma float_exponent_le: "0 < a \<Longrightarrow> 2 ^ float_exponent a \<le> a"
proof (induction a rule: float_exponent.induct)
  case (1 a)
  show ?case
  proof (cases "a < 2 ^ 24")
    case True
    with 1 show ?thesis by (simp add: float_exponent_small)
  next
    case False
    then have "0 < a div 2" by simp
    with 1 False have "2 ^ float_exponent (a div 2) \<le> a div 2" by simp
    then have "2 * 2 ^ float_exponent (a div 2) \<le> a" by simp
    with False show ?thesis by (subst float_exponent.simps) simp
  qed
qed

lemma round_to_float_pos: "0 < a \<Longrightarrow> 0 < round_to_float a"
proof -
  assume a: "0 < a"
  then have "2 ^ float_exponent a \<le> a" by (rule float_exponent_le)
  then have "0 < a div 2 ^ float_exponent a"
    by (simp add: div_greater_zero_iff)
  then show ?thesis by (simp add: round_to_float_def Let_def)
qed

lemma int_to_float_eq_0: "int_to_float n = 0 \<longleftrightarrow> n = 0"
proof (cases "n = 0")
  case True
  then show ?thesis by (simp add: int_to_float_def round_to_float_small)
next
  case False
  then have "0 < nat n \<or> 0 < nat (- n)" by auto
  then show ?thesis
  proof
    assume "0 < nat n"
    with round_to_float_pos[of "nat n"] False show ?thesis by (simp add: int_to_float_def)
  next
    assume "0 < nat (- n)"
    with round_to_float_pos[of "nat (- n)"] False show ?thesis by (simp add: int_to_float_def)
  qed
qed

text \<open>Above \<open>2^24\<close> the conversion rounds: \<open>16777219\<close> lies halfway between two
  floats and goes to \<open>16777220\<close>, so the half that \<open>SetTileDimensions\<close> stores for
  it is \<open>8388610\<close>.\<close>

lemma int_to_float_rounds: "int_to_float 16777219 = 16777220"
  by (simp add: int_to_float_def round_to_float_def float_exponent.simps[of 16777219]
      float_exponent_small Let_def)

lemma SetTileDimensions_rounds:
  "m_HalfTileWidth (SetTileDimensions 16777219 32 s) = 8388610"
  by (simp add: SetTileDimensions_def int_to_float_rounds truncate_int_def)

subsection \<open>Tile dimensions\<close>

lemma truncate_int_half_even:
  "even w \<Longrightarrow> \<bar>w\<bar> < 2 ^ 24 \<Longrightarrow> 2 * truncate_int (int_to_float w / 2) = w"
  by (auto simp: truncate_int_def int_to_float_small elim!: evenE)

lemma SetTileDimensions_fields:
  "m_TileWidth (SetTileDimensions w h s) = w"
  "m_TileHeight (SetTileDimensions w h s) = h"
  "m_HalfTileWidth (SetTileDimensions w h s) = truncate_int (int_to_float w / 2)"
  "m_HalfTileHeight (SetTileDimensions w h s) = truncate_int (int_to_float h / 2)"
  "m_RenderPerspective (SetTileDimensions w h s) = m_RenderPerspective s"
  by (simp_all add: SetTileDimensions_def)

lemma SceneGraph_new_fields:
  "m_TileWidth (SceneGraph_new r mw ml n w h p e) = w"
  "m_TileHeight (SceneGraph_new r mw ml n w h p e) = h"
  "m_HalfTileWidth (SceneGraph_new r mw ml n w h p e) = truncate_int (int_to_float w / 2)"
  "m_HalfTileHeight (SceneGraph_new r mw ml n w h p e) = truncate_int (int_to_float h / 2)"
  "m_RenderPerspective (SceneGraph_new r mw ml n w h p e) = p"
  "m_Zoom (SceneGraph_new r mw ml n w h p e) = 1"
  "m_wCameraPosition (SceneGraph_new r mw ml n w h p e) = (0, 0)"
  "m_RendererRef (SceneGraph_new r mw ml n w h p e) = r"
  by (simp_all add: SceneGraph_new_def SetCameraPosition_def SetTileDimensions_def Let_def)

text \<open>
  Claim C9. After \<open>SetTileDimensions w h\<close> the accessor \<open>GetTileDimensions\<close> returns
  the point \<open>(h, w)\<close>: its first component is the tile height and its second the tile
  width, the reverse of the order in which they were set.
\<close>

theorem GetTileDimensions_after_SetTileDimensions:
  "GetTileDimensions (SetTileDimensions w h s) = (h, w)"
  by (simp add: GetTileDimensions_def SetTileDimensions_def)

text \<open>
  Claim C10. The direction and distance overloads of \<open>Raycast\<close> and
  \<open>RaycastFirstHit\<close> return what the segment overloads return for the end point
  \<open>origin + direction * distance\<close>, whatever the quad tree's queries compute; and
  \<open>PickActor\<close> returns what the segment overload of \<open>RaycastFirstHit\<close> returns from
  the world position of the screen point to itself with an empty ignore list (and
  passes on the failure of the conversion to a world position, if there is one).
\<close>

theorem Raycast_overloads_delegate:
  "Raycast_direction qa s origin direction distance ignored =
     Raycast qa s origin (Point_add origin (Point_scale direction distance)) ignored
   \<and> RaycastFirstHit_direction qf s origin direction distance ignored =
     RaycastFirstHit qf s origin (Point_add origin (Point_scale direction distance)) ignored
   \<and> PickActor qf s sPosition =
     ebind (ToWorldPosition s sPosition) (\<lambda>w. Inr (RaycastFirstHit qf s w w []))"
  by (simp add: Raycast_direction_def RaycastFirstHit_direction_def PickActor_def
      RaycastFirstHit_def)

subsection \<open>The way to pixels and back\<close>

text \<open>
  Claim C3 does not hold of the code. Under the isometric perspective the way to
  pixels multiplies by the stored halves, which \<open>SetTileDimensions\<close> cuts to an
  \<^verbatim>\<open>int\<close>, and the way back divides by the full dimensions; the two are inverse
  only when the halves are exact. With tiles 4 wide and 3 high the halves are 2 and 1
  (1.5 cut off): the point \<open>(3, 0)\<close> goes to the pixel \<open>(6, 3)\<close> and comes back as
  \<open>3/3 + 6/4\<close> and \<open>3/3 - 6/4\<close>, that is \<open>(5/2, -1/2)\<close>. Every number on the way is
  a binary32 value and every step is exact on them, so the difference is not one of
  rounding. Under the oblique perspective, which multiplies and divides by the same
  full dimensions, the same tiles return the point: \<open>(3, 0)\<close> goes to \<open>(12, 0)\<close> and
  back to \<open>(3, 0)\<close>.
\<close>

theorem isometric_roundtrip_fails_on_odd_tiles:
  "m_HalfTileWidth sceneIsometric4x3 = 2 \<and> m_HalfTileHeight sceneIsometric4x3 = 1
   \<and> ToCartesianCoord sceneIsometric4x3 (3, 0) = (of_int 6, of_int 3)
   \<and> ToIsometricCoord sceneIsometric4x3 (6, 3) = Inr (5 / 2, - (1 / 2))
   \<and> ToIsometricCoord sceneIsometric4x3 (6, 3) \<noteq> Inr (3, 0)
   \<and> ToCartesianCoord sceneOblique4x3 (3, 0) = (of_int 12, of_int 0)
   \<and> ToIsometricCoord sceneOblique4x3 (12, 0) = Inr (3, 0)"
  by (simp add: sceneIsometric4x3_def sceneOblique4x3_def ToCartesianCoord_def
      ToIsometricCoord_def SceneGraph_new_fields truncate_int_def int_to_float_small
      fdiv_def ebind_def)

text \<open>
  Where the two ways are inverse: for tile dimensions that are not zero (and small
  enough to be floats as they are), under the oblique perspective, and under the
  isometric one when both dimensions are even, a point whose image falls on whole
  pixels comes back as it was.
\<close>

lemma roundtrip_where_halves_exact:
  assumes "w \<noteq> 0" and "h \<noteq> 0" and "\<bar>w\<bar> < 2 ^ 24" and "\<bar>h\<bar> < 2 ^ 24"
    and "\<bar>cx\<bar> < 2 ^ 24" and "\<bar>cy\<bar> < 2 ^ 24"
    and "m_RenderPerspective s = OBLIQUE \<or> (even w \<and> even h)"
    and "ToCartesianCoord (SetTileDimensions w h s) p = (of_int cx, of_int cy)"
  shows "ToIsometricCoord (SetTileDimensions w h s) (cx, cy) = Inr p"
proof (cases "m_RenderPerspective s")
  case OBLIQUE
  obtain x y where p: "p = (x, y)" by (cases p)
  from assms(3,4,8) OBLIQUE p have cx: "real_of_int cx = x * real_of_int w"
    and cy: "real_of_int cy = y * real_of_int h"
    by (simp_all add: ToCartesianCoord_def SetTileDimensions_fields int_to_float_small)
  show ?thesis using OBLIQUE assms(1-6)
    by (simp add: ToIsometricCoord_def SetTileDimensions_fields int_to_float_small
        fdiv_def ebind_def p cx cy)
next
  case ISOMETRIC
  obtain x y where p: "p = (x, y)" by (cases p)
  define hw where "hw = truncate_int (int_to_float w / 2)"
  define hh where "hh = truncate_int (int_to_float h / 2)"
  from assms(3,4,7) ISOMETRIC have 2: "2 * hw = w" "2 * hh = h"
    by (simp_all add: hw_def hh_def truncate_int_half_even)
  then have w: "real_of_int w = 2 * real_of_int hw" and h: "real_of_int h = 2 * real_of_int hh"
    by (metis of_int_mult of_int_numeral)+
  from assms(1,2) w h have nz: "real_of_int hw \<noteq> 0" "real_of_int hh \<noteq> 0"
    by auto
  from 2 assms(3,4) have small: "\<bar>hw\<bar> < 2 ^ 24" "\<bar>hh\<bar> < 2 ^ 24"
    by linarith+
  from assms(8) ISOMETRIC p small have cx: "real_of_int cx = (x - y) * real_of_int hw"
    and cy: "real_of_int cy = (x + y) * real_of_int hh"
    by (simp_all add: ToCartesianCoord_def SetTileDimensions_fields hw_def[symmetric]
        hh_def[symmetric] int_to_float_small)
  have "ToIsometricCoord (SetTileDimensions w h s) (cx, cy)
          = Inr (real_of_int cy / real_of_int h + real_of_int cx / real_of_int w,
                 real_of_int cy / real_of_int h - real_of_int cx / real_of_int w)"
    using ISOMETRIC assms(1-6)
    by (simp add: ToIsometricCoord_def SetTileDimensions_fields int_to_float_small
        fdiv_def ebind_def)
  also have "\<dots> = Inr p" using nz
    by (simp add: p cx cy w h field_simps)
  finally show ?thesis .
qed

text \<open>With tiles 64 by 32 the halves are 32 and 16, and the point \<open>(3, 1)\<close> goes to the
  pixel \<open>(64, 64)\<close> and back to \<open>(3, 1)\<close>.\<close>

lemma isometric_roundtrip_on_even_tiles:
  "ToCartesianCoord sceneIsometric64x32 (3, 1) = (of_int 64, of_int 64)
   \<and> ToIsometricCoord sceneIsometric64x32 (64, 64) = Inr (3, 1)"
  by (simp add: sceneIsometric64x32_def ToCartesianCoord_def ToIsometricCoord_def
      SceneGraph_new_fields truncate_int_def int_to_float_small fdiv_def ebind_def)

section \<open>Properties: the camera cache\<close>

lemma SetCameraPosition_refreshes_cache: "cameraCacheCurrent (SetCameraPosition p e s)"
  by (simp add: cameraCacheCurrent_def SetCameraPosition_def ToCartesianCoord_def
      Point_floor_def Let_def split: RenderPerspective.splits)

lemma SetZoom_keeps_cache: "cameraCacheCurrent s \<Longrightarrow> cameraCacheCurrent (SetZoom z s)"
  by (simp add: cameraCacheCurrent_def SetZoom_def ToCartesianCoord_def
      split: RenderPerspective.splits)

lemma SceneGraph_new_cache: "cameraCacheCurrent (SceneGraph_new r mw ml n w h p e)"
  by (simp add: SceneGraph_new_def SetCameraPosition_refreshes_cache)

text \<open>
  Claim C5 does not hold of the code. \<open>SetCameraPosition\<close> recomputes the cached
  position, the constructor calls it for that purpose, and the zoom does not enter the
  projection; but \<open>SetRenderPerspective\<close> and \<open>SetTileDimensions\<close> store their
  arguments and leave the cache as it was. With tiles of 32 by 32 under the oblique
  perspective and the camera at \<open>(1, 1)\<close> the cache holds \<open>(32, 32)\<close>; after the switch
  to the isometric perspective the camera projects to \<open>(0, 32)\<close>, and after the tiles
  are set to 64 by 64 instead it projects to \<open>(64, 64)\<close>, while the cache still holds
  \<open>(32, 32)\<close>.
\<close>

theorem camera_cache_stale_after_setters:
  "m_sCameraPosition (SetCameraPosition (1, 1) 0 sceneOblique32) = (32, 32)
   \<and> m_sCameraPosition (SetRenderPerspective ISOMETRIC (SetCameraPosition (1, 1) 0 sceneOblique32))
       = (32, 32)
   \<and> Point_floor
       (ToCartesianCoord (SetRenderPerspective ISOMETRIC (SetCameraPosition (1, 1) 0 sceneOblique32))
          (m_wCameraPosition
             (SetRenderPerspective ISOMETRIC (SetCameraPosition (1, 1) 0 sceneOblique32))))
       = (0, 32)
   \<and> \<not> cameraCacheCurrent
        (SetRenderPerspective ISOMETRIC (SetCameraPosition (1, 1) 0 sceneOblique32))
   \<and> \<not> cameraCacheCurrent
        (SetTileDimensions 64 64 (SetCameraPosition (1, 1) 0 sceneOblique32))"
  by (simp add: cameraCacheCurrent_def SetRenderPerspective_def SetCameraPosition_def
      SetTileDimensions_def sceneOblique32_def SceneGraph_new_def ToCartesianCoord_def
      Point_floor_def truncate_int_def int_to_float_small Let_def)

section \<open>Properties: divisions by the zoom\<close>

lemma ToWorldPosition_guards_zoom:
  "m_TileWidth s \<noteq> 0 \<Longrightarrow> m_TileHeight s \<noteq> 0 \<Longrightarrow> \<exists>w. ToWorldPosition (SetZoom 0 s) p = Inr w"
  by (simp add: ToWorldPosition_def ToIsometricCoord_def SetZoom_def fdiv_def ebind_def
      int_to_float_eq_0 split: RenderPerspective.splits)

text \<open>
  Claim C6 does not hold of the code. \<open>ToWorldPosition\<close> tests the zoom before it
  divides by it, but the culling extent of \<open>RenderTileMaps\<close> divides the screen centre
  by the tile size times the zoom with no test: at zoom \<open>0\<close> both divisors are zero,
  whatever the scene.
\<close>

theorem RenderTileMaps_divides_by_zero_zoom:
  "cullingBoxExtent (SetZoom 0 s) = Inl DivisionByZero
   \<and> RenderTileMaps_cullingBox (SetZoom 0 s) = Inl DivisionByZero"
  by (simp add: RenderTileMaps_cullingBox_def cullingBoxExtent_def SetZoom_def fdiv_def
      ebind_def Let_def)

section \<open>Properties: removal from the index\<close>

lemma heldBelow_unfold: "heldBelow c = cellActors c @ concat (map heldBelow (cellChildren c))"
  by (cases c) simp

lemma cellActors_subset_heldBelow: "set (cellActors c) \<subseteq> set (heldBelow c)"
  by (subst heldBelow_unfold) simp

lemma child_subset_heldBelow:
  "i < length (cellChildren c) \<Longrightarrow> set (heldBelow (cellChildren c ! i)) \<subseteq> set (heldBelow c)"
  by (subst (2) heldBelow_unfold) auto

lemma cellAt_subset_heldBelow:
  "cellAt tr q = Some k \<Longrightarrow> set (heldBelow k) \<subseteq> set (heldBelow tr)"
proof (induction q arbitrary: tr)
  case Nil
  then show ?case by simp
next
  case (Cons i q)
  then have i: "i < length (cellChildren tr)" and k: "cellAt (cellChildren tr ! i) q = Some k"
    by (auto split: if_splits)
  from Cons.IH[OF k] child_subset_heldBelow[OF i] show ?case by blast
qed

lemma childIndex_bound: "childIndex a cs n = Some i \<Longrightarrow> n \<le> i \<and> i < n + length cs"
  by (induction cs arbitrary: n) (fastforce split: if_splits)+

lemma mset_heldBelow:
  "mset (heldBelow c) = mset (cellActors c) + (\<Sum>k\<leftarrow>cellChildren c. mset (heldBelow k))"
  by (cases c) (simp add: mset_concat comp_def)

lemma sum_list_map_update:
  fixes f :: "'a \<Rightarrow> 'b multiset"
  shows "i < length cs \<Longrightarrow> (\<Sum>k\<leftarrow>cs[i := x]. f k) + f (cs ! i) = (\<Sum>k\<leftarrow>cs. f k) + f x"
proof -
  assume i: "i < length cs"
  then have 1: "cs = take i cs @ cs ! i # drop (Suc i) cs" by (rule id_take_nth_drop)
  have "(\<Sum>k\<leftarrow>cs. f k) = (\<Sum>k\<leftarrow>take i cs @ cs ! i # drop (Suc i) cs. f k)"
    using 1 by simp
  then show ?thesis using i by (simp add: upd_conv_take_nth_drop ac_simps)
qed

lemma mset_heldBelow_setCellChild:
  assumes "i < length (cellChildren c)"
  shows "mset (heldBelow (setCellChild i k c)) + mset (heldBelow (cellChildren c ! i))
       = mset (heldBelow c) + mset (heldBelow k)"
proof -
  obtain b m as cs where c: "c = QuadTreeCell b m as cs" by (cases c)
  from assms c have i: "i < length cs" by simp
  from sum_list_map_update[OF i, of "\<lambda>k. mset (heldBelow k)" k] show ?thesis
    by (simp add: c setCellChild_def mset_concat comp_def ac_simps)
qed

lemma erase_held:
  "cellAt tr p = Some c \<Longrightarrow> a \<in> set (cellActors c) \<Longrightarrow>
     add_mset a (mset (heldBelow (cellUpdate (\<lambda>k. setCellActors (remove1 a (cellActors k)) k) p tr)))
       = mset (heldBelow tr)"
proof (induction p arbitrary: tr)
  case Nil
  obtain b m as cs where tr: "tr = QuadTreeCell b m as cs" by (cases tr)
  from Nil have "c = tr" by simp
  with Nil tr have "a \<in> set as" by simp
  then have "add_mset a (mset (remove1 a as)) = mset as" by simp
  then show ?case
    by (simp add: tr setCellActors_def del: mset_remove1)
next
  case (Cons i p)
  let ?e = "cellUpdate (\<lambda>k. setCellActors (remove1 a (cellActors k)) k) p"
  from Cons.prems(1) have i: "i < length (cellChildren tr)"
    and c: "cellAt (cellChildren tr ! i) p = Some c"
    by (auto split: if_splits)
  from Cons.IH[OF c Cons.prems(2)]
  have ih: "add_mset a (mset (heldBelow (?e (cellChildren tr ! i)))) = mset (heldBelow (cellChildren tr ! i))" .
  from mset_heldBelow_setCellChild[OF i, of "?e (cellChildren tr ! i)"]
  have "add_mset a (mset (heldBelow (setCellChild i (?e (cellChildren tr ! i)) tr)))
          + mset (heldBelow (cellChildren tr ! i))
        = mset (heldBelow tr) + add_mset a (mset (heldBelow (?e (cellChildren tr ! i))))"
    by simp
  with ih have "add_mset a (mset (heldBelow (setCellChild i (?e (cellChildren tr ! i)) tr)))
        = mset (heldBelow tr)"
    by simp
  with i show ?case by simp
qed

lemma erase_not_held:
  assumes "cellAt tr p = Some c" and "a \<in> set (cellActors c)" and "distinct (heldBelow tr)"
  shows "a \<notin> set (heldBelow (cellUpdate (\<lambda>k. setCellActors (remove1 a (cellActors k)) k) p tr))"
proof -
  let ?tr = "cellUpdate (\<lambda>k. setCellActors (remove1 a (cellActors k)) k) p tr"
  have "mset (a # heldBelow ?tr) = mset (heldBelow tr)"
    using erase_held[OF assms(1,2)] by simp
  then have "distinct (a # heldBelow ?tr) = distinct (heldBelow tr)"
    by (rule mset_eq_imp_distinct_iff)
  with assms(3) show ?thesis by simp
qed

lemma RemoveActor_no_cell:
  "heap s pActor = Some a \<Longrightarrow> m_QuadTreeCell a = None \<Longrightarrow> RemoveActor pActor s = (False, s)"
  by (simp add: RemoveActor_def)

lemma RemoveActor_indexed:
  assumes "heap s pActor = Some a" "m_QuadTreeCell a = Some p"
    "cellAt (m_QuadTreeRoot s) p = Some c" "pActor \<in> set (cellActors c)"
  shows "RemoveActor pActor s =
     (True, s\<lparr>m_QuadTreeRoot := cellUpdate (\<lambda>k. setCellActors (remove1 pActor (cellActors k)) k) p (m_QuadTreeRoot s),
              heap := (heap s)(pActor \<mapsto> a\<lparr>m_QuadTreeCell := None\<rparr>)\<rparr>)"
  using assms by (simp add: RemoveActor_def QuadTreeCell_RemoveActor_def Let_def)

lemma sceneOblique32_fields:
  "m_QuadTreeRoot sceneOblique32 =
     QuadTreeCell \<lparr>rect_x = - (1 / 2), rect_y = - (1 / 2), rect_width = 10, rect_height = 10\<rparr> 4 [] []"
  "heap sceneOblique32 = Map.empty"
  "nextActor sceneOblique32 = 0"
  "m_Actors sceneOblique32 = []"
  "m_NewActors sceneOblique32 = []"
  "m_IsUpdatingActors sceneOblique32 = False"
  by (simp_all add: sceneOblique32_def SceneGraph_new_def SetCameraPosition_def
      SetTileDimensions_def round_to_float_small Let_def)

lemma sceneOneActor_fields:
  "m_QuadTreeRoot sceneOneActor =
     QuadTreeCell \<lparr>rect_x = - (1 / 2), rect_y = - (1 / 2), rect_width = 10, rect_height = 10\<rparr> 4 [0] []"
  "heap sceneOneActor 0 = Some ((Actor_new (1, 1) 0)\<lparr>m_QuadTreeCell := Some []\<rparr>)"
  "m_Actors sceneOneActor = [0]"
  by (simp_all add: sceneOneActor_def AddActor_def sceneOblique32_fields Let_def setCellActors_def
      eval_nat_numeral)

text \<open>
  Claim C8. For an actor with no owning cell, \<open>RemoveActor\<close> returns failure and the
  scene is unchanged. For an indexed actor, in an index that holds every reference
  once, \<open>RemoveActor\<close> returns success; afterwards no enumeration from any cell of the
  index, with or without its descendants, lists the actor unless the caller's output
  list already did; the actor has no owning cell, so that removing it again fails.
\<close>

theorem RemoveActor_outcome:
  "(heap s pActor \<noteq> None \<and> owningCell s pActor = None \<longrightarrow> RemoveActor pActor s = (False, s))
   \<and> (indexed s pActor \<and> distinct (heldBelow (m_QuadTreeRoot s)) \<longrightarrow>
        fst (RemoveActor pActor s)
        \<and> (\<forall>q k out r. cellAt (m_QuadTreeRoot (snd (RemoveActor pActor s))) q = Some k
              \<and> pActor \<in> set (AppendActorList k out r) \<longrightarrow> pActor \<in> set out)
        \<and> owningCell (snd (RemoveActor pActor s)) pActor = None
        \<and> RemoveActor pActor (snd (RemoveActor pActor s)) = (False, snd (RemoveActor pActor s)))"
proof (intro conjI impI)
  assume "heap s pActor \<noteq> None \<and> owningCell s pActor = None"
  then show "RemoveActor pActor s = (False, s)"
    by (auto simp: owningCell_def RemoveActor_def)
next
  assume h: "indexed s pActor \<and> distinct (heldBelow (m_QuadTreeRoot s))"
  then obtain a p c where a: "heap s pActor = Some a" and p: "m_QuadTreeCell a = Some p"
    and c: "cellAt (m_QuadTreeRoot s) p = Some c" and held: "pActor \<in> set (cellActors c)"
    by (auto simp: indexed_def owningCell_def split: option.splits)
  let ?tr = "cellUpdate (\<lambda>k. setCellActors (remove1 pActor (cellActors k)) k) p (m_QuadTreeRoot s)"
  let ?s = "s\<lparr>m_QuadTreeRoot := ?tr, heap := (heap s)(pActor \<mapsto> a\<lparr>m_QuadTreeCell := None\<rparr>)\<rparr>"
  have r: "RemoveActor pActor s = (True, ?s)"
    by (rule RemoveActor_indexed[OF a p c held])
  show "fst (RemoveActor pActor s)" by (simp add: r)
  have gone: "pActor \<notin> set (heldBelow ?tr)"
    using erase_not_held[OF c held] h by simp
  show "\<forall>q k out r. cellAt (m_QuadTreeRoot (snd (RemoveActor pActor s))) q = Some k
          \<and> pActor \<in> set (AppendActorList k out r) \<longrightarrow> pActor \<in> set out"
  proof (intro allI impI)
    fix q k out r
    assume "cellAt (m_QuadTreeRoot (snd (RemoveActor pActor s))) q = Some k
          \<and> pActor \<in> set (AppendActorList k out r)"
    then have k: "cellAt ?tr q = Some k" and m: "pActor \<in> set (AppendActorList k out r)"
      by (simp_all add: r)
    from cellAt_subset_heldBelow[OF k] cellActors_subset_heldBelow[of k] gone
    have "pActor \<notin> set (heldBelow k)" and "pActor \<notin> set (cellActors k)" by blast+
    with m show "pActor \<in> set out"
      by (auto simp: AppendActorList_def split: if_splits)
  qed
  show "owningCell (snd (RemoveActor pActor s)) pActor = None"
    by (simp add: r owningCell_def)
  show "RemoveActor pActor (snd (RemoveActor pActor s)) = (False, snd (RemoveActor pActor s))"
    unfolding r by (simp add: RemoveActor_def)
qed

theorem RemoveActor_outcome_witness:
  "indexed sceneOneActor 0 \<and> distinct (heldBelow (m_QuadTreeRoot sceneOneActor))
   \<and> fst (RemoveActor 0 sceneOneActor)
   \<and> 0 \<notin> set (AppendActorList (m_QuadTreeRoot (snd (RemoveActor 0 sceneOneActor))) [] True)
   \<and> heap (snd (RemoveActor 0 sceneOneActor)) 0 \<noteq> None
   \<and> owningCell (snd (RemoveActor 0 sceneOneActor)) 0 = None
   \<and> RemoveActor 0 (snd (RemoveActor 0 sceneOneActor)) = (False, snd (RemoveActor 0 sceneOneActor))"
proof -
  have i: "indexed sceneOneActor 0 \<and> distinct (heldBelow (m_QuadTreeRoot sceneOneActor))"
    by (simp add: indexed_def owningCell_def sceneOneActor_fields)
  have k: "cellAt (m_QuadTreeRoot (snd (RemoveActor 0 sceneOneActor))) [] =
             Some (m_QuadTreeRoot (snd (RemoveActor 0 sceneOneActor)))"
    by simp
  have h: "heap (snd (RemoveActor 0 sceneOneActor)) 0 \<noteq> None"
    by (simp add: RemoveActor_def QuadTreeCell_RemoveActor_def sceneOneActor_fields Let_def)
  from RemoveActor_outcome[of sceneOneActor 0] i
  have 1: "fst (RemoveActor 0 sceneOneActor)"
    and 2: "\<forall>q k out r. cellAt (m_QuadTreeRoot (snd (RemoveActor 0 sceneOneActor))) q = Some k
              \<and> 0 \<in> set (AppendActorList k out r) \<longrightarrow> 0 \<in> set out"
    and 3: "owningCell (snd (RemoveActor 0 sceneOneActor)) 0 = None"
    by blast+
  from 2 k have 4: "0 \<notin> set (AppendActorList (m_QuadTreeRoot (snd (RemoveActor 0 sceneOneActor))) [] True)"
    by fastforce
  from RemoveActor_outcome[of "snd (RemoveActor 0 sceneOneActor)" 0] h 3
  have 5: "RemoveActor 0 (snd (RemoveActor 0 sceneOneActor)) = (False, snd (RemoveActor 0 sceneOneActor))"
    by blast
  from i 1 4 h 3 5 show ?thesis by blast
qed

subsection \<open>An index that holds every reference once\<close>

text \<open>
  The theorem above asks that the index holds every reference once. That is so in a
  new scene, and adding and removing actors keep it so: an insertion that comes back
  adds the one reference to those held, however the cells subdivide.
\<close>

lemma InsertActor_held_all:
  "(\<forall>r. InsertActor fuel here a ch = Some r \<longrightarrow>
       mset (heldBelow (fst r)) = add_mset a (mset (heldBelow (fst ch))))"
  and reinsertActors_held_all:
  "(\<forall>r. reinsertActors fuel here l ch = Some r \<longrightarrow>
       mset (heldBelow (fst r)) = mset l + mset (heldBelow (fst ch)))"
proof (induction fuel here a ch and fuel here l ch rule: InsertActor_reinsertActors.induct)
  case (1 here pActor ch)
  then show ?case by simp
next
  case (2 fuel here pActor ch)
  show ?case
  proof (intro allI impI)
    fix r assume r: "InsertActor (Suc fuel) here pActor ch = Some r"
    then obtain a where a: "snd ch pActor = Some a" by (auto split: option.splits)
    show "mset (heldBelow (fst r)) = add_mset pActor (mset (heldBelow (fst ch)))"
    proof (cases "childIndex a (cellChildren (fst ch)) 0")
      case (Some i)
      with r a obtain kh where kh: "InsertActor fuel (here @ [i]) pActor (cellChildren (fst ch) ! i, snd ch) = Some kh"
        and r': "r = (setCellChild i (fst kh) (fst ch), snd kh)"
        by (auto split: option.splits)
      from Some have i: "i < length (cellChildren (fst ch))" using childIndex_bound by fastforce
      from "2.IH"(2)[OF a Some] kh
      have "mset (heldBelow (fst kh)) = add_mset pActor (mset (heldBelow (cellChildren (fst ch) ! i)))"
        by simp
      with mset_heldBelow_setCellChild[OF i, of "fst kh"] show ?thesis
        by (simp add: r')
    next
      case None
      let ?c = "setCellActors (cellActors (fst ch) @ [pActor]) (fst ch)"
      let ?h = "(snd ch)(pActor \<mapsto> a\<lparr>m_QuadTreeCell := Some here\<rparr>)"
      have held: "mset (heldBelow ?c) = add_mset pActor (mset (heldBelow (fst ch)))"
        by (cases "fst ch") (simp add: setCellActors_def)
      show ?thesis
      proof (cases "cellChildren ?c = [] \<and> cellMaxNumActors ?c < length (cellActors ?c)")
        case True
        with r a None have rr: "reinsertActors fuel here (cellActors ?c) (subdivided ?c, ?h) = Some r"
          by (simp add: Let_def)
        from True have leaf: "mset (heldBelow ?c) = mset (cellActors ?c)"
          by (cases ?c) auto
        have empty: "heldBelow (subdivided ?c) = []"
          by (simp add: subdivided_def quadrants_def Let_def)
        from "2.IH"(1)[OF a None refl refl True] rr
        have "mset (heldBelow (fst r)) = mset (cellActors ?c) + mset (heldBelow (subdivided ?c))"
          by simp
        with leaf empty held show ?thesis by simp
      next
        case False
        with r a None have "r = (?c, ?h)" by (auto simp: Let_def)
        with held show ?thesis by simp
      qed
    qed
  qed
next
  case (3 fuel here ch)
  then show ?case by simp
next
  case (4 fuel here pActor rest ch)
  show ?case
  proof (intro allI impI)
    fix r assume r: "reinsertActors fuel here (pActor # rest) ch = Some r"
    then obtain a where a: "snd ch pActor = Some a" by (auto split: option.splits)
    show "mset (heldBelow (fst r)) = mset (pActor # rest) + mset (heldBelow (fst ch))"
    proof (cases "childIndex a (cellChildren (fst ch)) 0")
      case None
      let ?c = "setCellActors (cellActors (fst ch) @ [pActor]) (fst ch)"
      have held: "mset (heldBelow ?c) = add_mset pActor (mset (heldBelow (fst ch)))"
        by (cases "fst ch") (simp add: setCellActors_def)
      from r a None have "reinsertActors fuel here rest (?c, snd ch) = Some r" by simp
      with "4.IH"(1)[OF a None] have "mset (heldBelow (fst r)) = mset rest + mset (heldBelow ?c)"
        by simp
      with held show ?thesis by simp
    next
      case (Some i)
      with r a obtain kh where kh: "InsertActor fuel (here @ [i]) pActor (cellChildren (fst ch) ! i, snd ch) = Some kh"
        and rr: "reinsertActors fuel here rest (setCellChild i (fst kh) (fst ch), snd kh) = Some r"
        by (auto split: option.splits)
      from Some have i: "i < length (cellChildren (fst ch))" using childIndex_bound by fastforce
      from "4.IH"(2)[OF a Some] kh
      have 1: "mset (heldBelow (fst kh)) = add_mset pActor (mset (heldBelow (cellChildren (fst ch) ! i)))"
        by simp
      from "4.IH"(3)[OF a Some kh] rr
      have 2: "mset (heldBelow (fst r)) = mset rest + mset (heldBelow (setCellChild i (fst kh) (fst ch)))"
        by simp
      from mset_heldBelow_setCellChild[OF i, of "fst kh"] 1 2 show ?thesis
        by (simp add: ac_simps)
    qed
  qed
qed

lemma InsertActor_held:
  "InsertActor fuel here a ch = Some r \<Longrightarrow>
     mset (heldBelow (fst r)) = add_mset a (mset (heldBelow (fst ch)))"
  using InsertActor_held_all by blast

lemma AddActor_held:
  assumes "AddActor fuel a s = Some (r, s')"
  shows "r = nextActor s"
    and "mset (heldBelow (m_QuadTreeRoot s')) = add_mset (nextActor s) (mset (heldBelow (m_QuadTreeRoot s)))"
proof -
  let ?h = "(heap s)(nextActor s \<mapsto> a)"
  have "\<exists>rh. InsertActor fuel [] (nextActor s) (m_QuadTreeRoot s, ?h) = Some rh
          \<and> r = nextActor s \<and> m_QuadTreeRoot s' = fst rh"
    using assms
    by (cases "m_IsUpdatingActors s";
        cases "InsertActor fuel [] (nextActor s) (m_QuadTreeRoot s, ?h)")
       (auto simp: AddActor_def Let_def)
  then obtain rh where i: "InsertActor fuel [] (nextActor s) (m_QuadTreeRoot s, ?h) = Some rh"
    and r: "r = nextActor s" and s': "m_QuadTreeRoot s' = fst rh"
    by blast
  show "r = nextActor s" by (rule r)
  from InsertActor_held[OF i] s'
  show "mset (heldBelow (m_QuadTreeRoot s')) = add_mset (nextActor s) (mset (heldBelow (m_QuadTreeRoot s)))"
    by simp
qed

lemma AddActor_keeps_distinct:
  assumes "AddActor fuel a s = Some (r, s')" and "distinct (heldBelow (m_QuadTreeRoot s))"
    and "nextActor s \<notin> set (heldBelow (m_QuadTreeRoot s))"
  shows "distinct (heldBelow (m_QuadTreeRoot s'))"
proof -
  from AddActor_held(2)[OF assms(1)]
  have "mset (heldBelow (m_QuadTreeRoot s')) = mset (nextActor s # heldBelow (m_QuadTreeRoot s))"
    by simp
  then have "distinct (heldBelow (m_QuadTreeRoot s')) = distinct (nextActor s # heldBelow (m_QuadTreeRoot s))"
    by (rule mset_eq_imp_distinct_iff)
  with assms(2,3) show ?thesis by simp
qed

lemma SceneGraph_new_holds_once: "indexHoldsOnce (SceneGraph_new r mw ml n w h p e)"
  by (simp add: indexHoldsOnce_def SceneGraph_new_def SetCameraPosition_def SetTileDimensions_def
      Let_def)

lemma AddActor_nextActor: "AddActor fuel a s = Some (r, s') \<Longrightarrow> nextActor s' = Suc (nextActor s)"
  by (cases "m_IsUpdatingActors s";
      cases "InsertActor fuel [] (nextActor s) (m_QuadTreeRoot s, (heap s)(nextActor s \<mapsto> a))")
     (auto simp: AddActor_def Let_def)

lemma AddActor_holds_once:
  assumes "AddActor fuel a s = Some (r, s')" and "indexHoldsOnce s"
  shows "indexHoldsOnce s'"
proof -
  from assms(2) have d: "distinct (heldBelow (m_QuadTreeRoot s))"
    and b: "\<forall>p \<in> set (heldBelow (m_QuadTreeRoot s)). p < nextActor s"
    by (simp_all add: indexHoldsOnce_def list_all_iff)
  from b have fresh: "nextActor s \<notin> set (heldBelow (m_QuadTreeRoot s))" by auto
  have m: "mset (heldBelow (m_QuadTreeRoot s')) = mset (nextActor s # heldBelow (m_QuadTreeRoot s))"
    using AddActor_held(2)[OF assms(1)] by simp
  then have "set (heldBelow (m_QuadTreeRoot s')) = set (nextActor s # heldBelow (m_QuadTreeRoot s))"
    by (rule mset_eq_setD)
  with b AddActor_nextActor[OF assms(1)]
  have "\<forall>p \<in> set (heldBelow (m_QuadTreeRoot s')). p < nextActor s'" by auto
  moreover have "distinct (heldBelow (m_QuadTreeRoot s'))"
    by (rule AddActor_keeps_distinct[OF assms(1) d fresh])
  ultimately show ?thesis by (simp add: indexHoldsOnce_def list_all_iff)
qed

lemma RemoveActor_holds_once:
  assumes "indexHoldsOnce s"
  shows "indexHoldsOnce (snd (RemoveActor pActor s))"
proof (cases "indexed s pActor")
  case True
  then obtain a p c where a: "heap s pActor = Some a" and p: "m_QuadTreeCell a = Some p"
    and c: "cellAt (m_QuadTreeRoot s) p = Some c" and held: "pActor \<in> set (cellActors c)"
    by (auto simp: indexed_def owningCell_def split: option.splits)
  let ?tr = "cellUpdate (\<lambda>k. setCellActors (remove1 pActor (cellActors k)) k) p (m_QuadTreeRoot s)"
  have m: "mset (pActor # heldBelow ?tr) = mset (heldBelow (m_QuadTreeRoot s))"
    using erase_held[OF c held] by simp
  then have "distinct (pActor # heldBelow ?tr) = distinct (heldBelow (m_QuadTreeRoot s))"
    by (rule mset_eq_imp_distinct_iff)
  moreover from m have "set (pActor # heldBelow ?tr) = set (heldBelow (m_QuadTreeRoot s))"
    by (rule mset_eq_setD)
  ultimately show ?thesis using assms
    by (auto simp: RemoveActor_indexed[OF a p c held] indexHoldsOnce_def list_all_iff)
next
  case False
  then have "snd (RemoveActor pActor s) = s"
    by (auto simp: RemoveActor_def QuadTreeCell_RemoveActor_def indexed_def owningCell_def Let_def
        split: option.splits)
  with assms show ?thesis by simp
qed

section \<open>Properties: the world bounds\<close>

lemmas rect_defs = Rect_Within_def worldBoundingBox_def clampBoundingBox_def clampStep_def
  GetLeft_def GetRight_def GetTop_def GetBottom_def GetWidth_def GetHeight_def SetX_def SetY_def
  GetPosition_def GetCentrePosition_def SetCentrePosition_def Point_add_def Point_sub_def spanFits_def

lemma clampStep_own:
  "spanFits R lb lb \<Longrightarrow> Rect_Within R (worldBoundingBox (clampStep R p lb) lb)"
  by (simp add: rect_defs Let_def)

lemma clampStep_other:
  "spanFits R lb lb \<Longrightarrow> spanFits R lb lb2 \<Longrightarrow> spanFits R lb2 lb \<Longrightarrow>
   Rect_Within R (worldBoundingBox p lb2) \<Longrightarrow>
   Rect_Within R (worldBoundingBox (clampStep R p lb) lb2)"
  by (simp add: rect_defs Let_def)

lemma clamp_fold:
  "list_all (\<lambda>b1. list_all (\<lambda>b2. spanFits R b1 b2) (seen @ rest)) (seen @ rest) \<Longrightarrow>
   list_all (\<lambda>b. Rect_Within R (worldBoundingBox p b)) seen \<Longrightarrow>
   list_all (\<lambda>b. Rect_Within R (worldBoundingBox (foldl (clampStep R) p rest) b)) (seen @ rest)"
proof (induction rest arbitrary: p seen)
  case Nil
  then show ?case by simp
next
  case (Cons lb rest)
  from Cons.prems(1) have fit: "\<And>b1 b2. b1 \<in> set (seen @ lb # rest) \<Longrightarrow> b2 \<in> set (seen @ lb # rest)
      \<Longrightarrow> spanFits R b1 b2"
    unfolding list_all_iff by blast
  have own: "Rect_Within R (worldBoundingBox (clampStep R p lb) lb)"
    by (simp add: clampStep_own fit)
  have others: "Rect_Within R (worldBoundingBox (clampStep R p lb) b)" if "b \<in> set seen" for b
  proof (rule clampStep_other)
    show "spanFits R lb lb" "spanFits R lb b" "spanFits R b lb" using that by (simp_all add: fit)
    show "Rect_Within R (worldBoundingBox p b)" using Cons.prems(2) that by (simp add: list_all_iff)
  qed
  have 1: "list_all (\<lambda>b1. list_all (\<lambda>b2. spanFits R b1 b2) ((seen @ [lb]) @ rest)) ((seen @ [lb]) @ rest)"
    using Cons.prems(1) by simp
  have 2: "list_all (\<lambda>b. Rect_Within R (worldBoundingBox (clampStep R p lb) b)) (seen @ [lb])"
    using own others by (simp add: list_all_iff)
  from Cons.IH[OF 1 2] show ?case by simp
qed

lemma clampActor_within: "boxesFit R a \<Longrightarrow> boxesWithin R (clampActor R a)"
proof (cases "m_BoundingBoxes a")
  case None
  then show ?thesis by (simp add: boxesWithin_def clampActor_def)
next
  case (Some boxes)
  assume "boxesFit R a"
  with Some have "boxesFitTogether R boxes" by (simp add: boxesFit_def)
  with Some clamp_fold[of R "[]" boxes "m_Position a"] show ?thesis
    by (simp add: boxesWithin_def clampActor_def boxesFitTogether_def)
qed

lemma clampActor_boxes: "m_BoundingBoxes (clampActor R a) = m_BoundingBoxes a"
  by (simp add: clampActor_def split: option.splits)

lemma clampActor_fit: "boxesFit R (clampActor R a) = boxesFit R a"
  by (simp add: boxesFit_def clampActor_boxes)

lemma clampAt_same: "h pActor = Some a \<Longrightarrow> clampAt R h pActor pActor = Some (clampActor R a)"
  by (simp add: clampAt_def)

lemma clampAt_other: "q \<noteq> pActor \<Longrightarrow> clampAt R h q pActor = h pActor"
  by (simp add: clampAt_def split: option.splits)

lemma clampActors_heap:
  "heap (clampActors s) =
     foldl (clampAt (cellBoundingBox (m_QuadTreeRoot s))) (heap s) (cellActors (m_QuadTreeRoot s))"
  by (simp add: clampActors_def AppendActorList_def clampAt_def[abs_def] Let_def)

text \<open>Clamping keeps an actor whose boxes fit such, brings it within when its turn
  comes, and keeps it within once it is.\<close>

lemma clamp_all_keeps:
  "h pActor = Some a \<Longrightarrow> boxesFit R a \<Longrightarrow>
   \<exists>a'. foldl (clampAt R) h l pActor = Some a' \<and> boxesFit R a'
        \<and> (boxesWithin R a \<or> pActor \<in> set l \<longrightarrow> boxesWithin R a')"
proof (induction l arbitrary: h a)
  case Nil
  then show ?case by simp
next
  case (Cons q l)
  show ?case
  proof (cases "q = pActor")
    case True
    let ?a = "clampActor R a"
    have h1: "clampAt R h q pActor = Some ?a" using True Cons.prems(1) by (simp add: clampAt_same)
    have b1: "boxesFit R ?a" using Cons.prems(2) by (simp add: clampActor_fit)
    have w1: "boxesWithin R ?a" by (rule clampActor_within[OF Cons.prems(2)])
    from Cons.IH[where h = "clampAt R h q" and a = ?a, OF h1 b1] w1
    show ?thesis by auto
  next
    case False
    then have h1: "clampAt R h q pActor = Some a" using Cons.prems(1) by (simp add: clampAt_other)
    from Cons.IH[where h = "clampAt R h q" and a = a, OF h1 Cons.prems(2)] False
    show ?thesis by auto
  qed
qed

lemma sceneWideActor_fields:
  "m_QuadTreeRoot sceneWideActor =
     QuadTreeCell \<lparr>rect_x = - (1 / 2), rect_y = - (1 / 2), rect_width = 10, rect_height = 10\<rparr> 4 [0] []"
  "heap sceneWideActor 0 = Some ((Actor_new (5, 5) 0)
                \<lparr>m_BoundingBoxes :=
                   Some [\<lparr>rect_x = 0, rect_y = 0, rect_width = 20, rect_height = 1\<rparr>],
                 m_QuadTreeCell := Some []\<rparr>)"
  by (simp_all add: sceneWideActor_def AddActor_def sceneOblique32_fields Let_def setCellActors_def
      eval_nat_numeral Actor_new_def)

lemma sceneStrayActor_fields:
  "m_QuadTreeRoot sceneStrayActor =
     QuadTreeCell \<lparr>rect_x = - (1 / 2), rect_y = - (1 / 2), rect_width = 10, rect_height = 10\<rparr> 4 [0] []"
  "heap sceneStrayActor 0 = Some ((Actor_new (20, 5) 0)
                \<lparr>m_BoundingBoxes :=
                   Some [\<lparr>rect_x = 0, rect_y = 0, rect_width = 1, rect_height = 1\<rparr>,
                         \<lparr>rect_x = 1, rect_y = 0, rect_width = 2, rect_height = 1\<rparr>],
                 m_QuadTreeCell := Some []\<rparr>)"
  by (simp_all add: sceneStrayActor_def AddActor_def sceneOblique32_fields Let_def setCellActors_def
      eval_nat_numeral Actor_new_def)

text \<open>The clamping pass of \<open>ResolveCollisions\<close> brings within the root region every
  actor whose boxes fit it together and that the root cell holds, and leaves within
  every such actor that was within.\<close>

lemma clampActors_contains:
  assumes "actorFitsWorld s pActor"
    and "pActor \<in> set (AppendActorList (m_QuadTreeRoot s) [] False) \<or> actorWithinWorld s pActor"
  shows "actorWithinWorld (clampActors s) pActor"
proof -
  from assms(1) obtain a where a: "heap s pActor = Some a"
    and f: "boxesFit (cellBoundingBox (m_QuadTreeRoot s)) a"
    by (auto simp: actorFitsWorld_def split: option.splits)
  from assms(2) a have c: "boxesWithin (cellBoundingBox (m_QuadTreeRoot s)) a
      \<or> pActor \<in> set (cellActors (m_QuadTreeRoot s))"
    by (auto simp: AppendActorList_def actorWithinWorld_def)
  from clamp_all_keeps[where h = "heap s" and a = a and l = "cellActors (m_QuadTreeRoot s)", OF a f] c
  obtain a' where "heap (clampActors s) pActor = Some a'"
      and "boxesWithin (cellBoundingBox (m_QuadTreeRoot s)) a'"
    by (auto simp: clampActors_heap)
  moreover have "m_QuadTreeRoot (clampActors s) = m_QuadTreeRoot s"
    by (simp add: clampActors_def Let_def)
  ultimately show ?thesis by (simp add: actorWithinWorld_def)
qed

text \<open>An actor that the root cell holds: at \<open>(20, 5)\<close>, outside a world 10 wide, with
  two boxes that fit the world together. The pass brings it within.\<close>

lemma ResolveCollisions_clamps_root_held_actor:
  "AppendActorList (m_QuadTreeRoot sceneStrayActor) [] False = [0]
   \<and> actorFitsWorld sceneStrayActor 0
   \<and> \<not> actorWithinWorld sceneStrayActor 0
   \<and> actorWithinWorld (ResolveCollisions resolveNothing sceneStrayActor) 0"
proof -
  have f: "actorFitsWorld sceneStrayActor 0"
    by (simp add: actorFitsWorld_def boxesFit_def sceneStrayActor_fields boxesFitTogether_def
        Actor_new_def rect_defs)
  have r: "AppendActorList (m_QuadTreeRoot sceneStrayActor) [] False = [0]"
    by (simp add: AppendActorList_def sceneStrayActor_fields)
  have n: "\<not> actorWithinWorld sceneStrayActor 0"
    by (simp add: actorWithinWorld_def boxesWithin_def sceneStrayActor_fields Actor_new_def rect_defs)
  from f r have "actorWithinWorld (clampActors sceneStrayActor) 0"
    by (intro clampActors_contains) simp_all
  then have "actorWithinWorld (ResolveCollisions resolveNothing sceneStrayActor) 0"
    by (simp add: ResolveCollisions_def resolveNothing_def actorWithinWorld_def Let_def)
  with f r n show ?thesis by blast
qed

text \<open>A box wider than the world has no place within it. An actor at \<open>(5, 5)\<close> with
  one box 20 wide in a world 10 wide: the test of the left edge moves the box to the
  left edge of the world, the test of the right edge then moves it left by its excess,
  and the actor ends at \<open>(-1/2, 5)\<close> with its box reaching from \<open>-10.5\<close> to \<open>9.5\<close>.\<close>

lemma clamp_of_oversized_box:
  "map_option m_Position (heap (ResolveCollisions resolveNothing sceneWideActor) 0) = Some (- (1 / 2), 5)
   \<and> \<not> actorWithinWorld (ResolveCollisions resolveNothing sceneWideActor) 0"
  by (simp add: ResolveCollisions_def resolveNothing_def clampActors_def AppendActorList_def
      sceneWideActor_fields actorWithinWorld_def boxesWithin_def clampActor_def Actor_new_def
      rect_defs Let_def)

subsection \<open>Actors that a child cell holds\<close>






section \<open>Properties: spawning\<close>

text \<open>The two overloads that take a file name give up when the factory fails: no
  actor is returned and the scene is the one they were given.\<close>

lemma SpawnActor_failure:
  "\<not> fst (factory f (Actor_new p e)) \<Longrightarrow> SpawnActor factory fuel f p e s = Some (None, s)"
  by (simp add: SpawnActor_def Let_def)

lemma SpawnActor_filename_failure:
  "\<not> fst (factory f (Actor_new (0, 0) 0)) \<Longrightarrow> SpawnActor_filename factory fuel f s = Some (None, s)"
  by (simp add: SpawnActor_filename_def SpawnActor_failure)

lemma AddActor_empty_root:
  "m_QuadTreeRoot s = QuadTreeCell b m as [] \<Longrightarrow> length as < m \<Longrightarrow>
   AddActor (Suc fuel) a s =
     Some (nextActor s,
           (if m_IsUpdatingActors s
            then s\<lparr>m_NewActors := m_NewActors s @ [nextActor s]\<rparr>
            else s\<lparr>m_Actors := m_Actors s @ [nextActor s]\<rparr>)
           \<lparr>m_QuadTreeRoot := QuadTreeCell b m (as @ [nextActor s]) [],
            heap := (heap s)(nextActor s \<mapsto> a\<lparr>m_QuadTreeCell := Some []\<rparr>),
            nextActor := Suc (nextActor s)\<rparr>)"
  by (simp add: AddActor_def Let_def setCellActors_def)

text \<open>
  Claim C4 does not hold of the code. The overloads that take a file name test the
  factory's answer; the template \<open>SpawnActor<ActorType>\<close> calls the factory, drops
  its answer and adds the actor all the same. With a factory that fails, the overload
  returns no actor and leaves the scene alone, while the template returns actor 0, now
  in the registry and in the index.
\<close>

theorem SpawnActor_template_ignores_failure:
  "\<not> fst (failingFactory ''missing.json'' (Actor_new (1, 1) 0))
   \<and> SpawnActor failingFactory 8 ''missing.json'' (1, 1) 0 sceneOblique32 = Some (None, sceneOblique32)
   \<and> map_option fst (SpawnActor_template failingFactory 8 ''missing.json'' (1, 1) 0 sceneOblique32)
       = Some (Some 0)
   \<and> map_option (\<lambda>r. m_Actors (snd r))
        (SpawnActor_template failingFactory 8 ''missing.json'' (1, 1) 0 sceneOblique32) = Some [0]
   \<and> map_option (\<lambda>r. AppendActorList (m_QuadTreeRoot (snd r)) [] True)
        (SpawnActor_template failingFactory 8 ''missing.json'' (1, 1) 0 sceneOblique32) = Some [0]"
  by (simp add: SpawnActor_template_def SpawnActor_def failingFactory_def Let_def
      AddActor_empty_root[OF sceneOblique32_fields(1)] eval_nat_numeral sceneOblique32_fields
      AppendActorList_def)

section \<open>Properties: the update pass\<close>

text \<open>The pass updates the actors of the registry as it stood at the start, each
  once and in order; while it runs, requests leave the registry alone, and new actors
  go to the buffer.\<close>

lemma front_behind:
  "rev (dropWhile (Not \<circ> P) (rev xs)) @ rev (takeWhile (Not \<circ> P) (rev xs)) = xs"
  by (metis rev_append rev_rev_ident takeWhile_dropWhile_id)

text \<open>\<^verbatim>\<open>std::partition\<close> keeps the elements and puts first those that satisfy the
  predicate; it does not keep their order.\<close>

lemma std_partition_mset:
  "mset (fst (std_partition P xs)) = mset (filter P xs) \<and>
   mset (snd (std_partition P xs)) = mset (filter (Not \<circ> P) xs)"
proof (induction P xs rule: std_partition.induct)
  case (1 P)
  then show ?case by simp
next
  case (2 P x xs)
  define front where "front = rev (dropWhile (Not \<circ> P) (rev xs))"
  define behind where "behind = rev (takeWhile (Not \<circ> P) (rev xs))"
  have xs: "xs = front @ behind" by (simp add: front_def behind_def front_behind)
  have nb: "\<not> P y" if "y \<in> set behind" for y
    using that set_takeWhileD[of y "Not \<circ> P" "rev xs"] by (simp add: behind_def)
  have behind: "filter P behind = []" "filter (Not \<circ> P) behind = behind"
    "mset (filter (Not \<circ> P) behind) = mset behind"
    by (simp_all add: filter_empty_conv filter_id_conv nb)
  show ?case
  proof (cases "P x")
    case True
    with 2 show ?thesis by (simp add: Let_def)
  next
    case False
    show ?thesis
    proof (cases "front = []")
      case True
      have sp: "std_partition P (x # xs) = ([], x # xs)"
        using False True by (simp add: Let_def front_def[symmetric])
      have "filter P (x # xs) = []" "filter (Not \<circ> P) (x # xs) = x # xs"
        using False True xs behind by simp_all
      then show ?thesis by (simp only: sp fst_conv snd_conv)
    next
      case nonempty: False
      then have "dropWhile (Not \<circ> P) (rev xs) \<noteq> []" by (simp add: front_def)
      then have "P (hd (dropWhile (Not \<circ> P) (rev xs)))"
        using hd_dropWhile[of "Not \<circ> P" "rev xs"] by simp
      then have l: "P (last front)" using nonempty by (simp add: front_def last_rev)
      have f: "front = butlast front @ [last front]" using nonempty by simp
      from "2.IH"(2)[OF False front_def behind_def nonempty]
      have ih: "mset (fst (std_partition P (butlast front))) = mset (filter P (butlast front))"
        "mset (snd (std_partition P (butlast front))) = mset (filter (Not \<circ> P) (butlast front))"
        by simp_all
      have 1: "mset (filter P xs) = add_mset (last front) (mset (filter P (butlast front)))"
        using l behind by (subst xs, subst f) simp
      have 2: "mset (filter (Not \<circ> P) xs) = mset (filter (Not \<circ> P) (butlast front)) + mset behind"
        using l behind by (subst xs, subst f) simp
      have sp: "std_partition P (x # xs) =
          (last front # fst (std_partition P (butlast front)),
           snd (std_partition P (butlast front)) @ x # behind)"
        using False nonempty by (simp add: Let_def front_def[symmetric] behind_def[symmetric])
      have 3: "mset (filter P (x # xs)) = mset (filter P xs)"
        "mset (filter (Not \<circ> P) (x # xs)) = add_mset x (mset (filter (Not \<circ> P) xs))"
        using False by simp_all
      show ?thesis
        unfolding sp fst_conv snd_conv 3 1 2 using ih by simp
    qed
  qed
qed

text \<open>With the second and the fourth of four elements satisfying the predicate, the
  fourth comes first.\<close>

lemma std_partition_order:
  "std_partition (\<lambda>n. n = 1 \<or> n = 3) [0, 1, 2, 3 :: nat] = ([3, 1], [2, 0])"
  by simp

lemma DestroyPendingActors_registry:
  "mset (m_Actors (DestroyPendingActors s)) = mset (filter (pendingDestroy s) (m_Actors s))"
  by (simp add: DestroyPendingActors_def Let_def std_partition_mset)

lemma updateActors_updated:
  "updateActors logic factory fuel dt l s = Some (u, s') \<Longrightarrow> u = l"
  by (induction l arbitrary: s u) (auto split: option.splits)

lemma Update_updates_registry:
  "Update logic factory fuel dt s = Some (u, s') \<Longrightarrow> u = m_Actors s"
  by (auto simp: Update_def Let_def split: option.splits dest: updateActors_updated)

lemma AddActor_updating:
  "m_IsUpdatingActors s \<Longrightarrow> AddActor fuel a s = Some (r, s') \<Longrightarrow>
     m_Actors s' = m_Actors s \<and> m_IsUpdatingActors s'"
  by (auto simp: AddActor_def Let_def split: option.splits)

lemma perform_updating:
  "m_IsUpdatingActors s \<Longrightarrow> perform factory fuel r s = Some s' \<Longrightarrow>
     m_Actors s' = m_Actors s \<and> m_IsUpdatingActors s'"
  by (cases r)
     (auto simp: SpawnActor_def SpawnActor_filename_def SpawnActor_template_def markPendingDestroy_def
        Let_def split: option.splits if_splits dest: AddActor_updating)

lemma performAll_updating:
  "m_IsUpdatingActors s \<Longrightarrow> performAll factory fuel rs s = Some s' \<Longrightarrow>
     m_Actors s' = m_Actors s \<and> m_IsUpdatingActors s'"
proof (induction rs arbitrary: s)
  case Nil
  then show ?case by simp
next
  case (Cons r rs)
  then obtain s1 where 1: "perform factory fuel r s = Some s1" and 2: "performAll factory fuel rs s1 = Some s'"
    by (auto split: option.splits)
  from perform_updating[OF Cons.prems(1) 1] Cons.IH[OF _ 2] show ?case by simp
qed

lemma sceneTwoActors_fields:
  "m_QuadTreeRoot sceneTwoActors =
     QuadTreeCell \<lparr>rect_x = - (1 / 2), rect_y = - (1 / 2), rect_width = 10, rect_height = 10\<rparr> 4 [0, 1] []"
  "heap sceneTwoActors 0 = Some ((Actor_new (1, 1) 0)\<lparr>m_QuadTreeCell := Some []\<rparr>)"
  "heap sceneTwoActors (Suc 0) = Some ((Actor_new (2, 2) 0)\<lparr>m_QuadTreeCell := Some []\<rparr>)"
  "m_Actors sceneTwoActors = [0, 1]"
  "m_NewActors sceneTwoActors = []"
  by (simp_all add: sceneTwoActors_def sceneOneActor_def AddActor_def sceneOblique32_fields Let_def
      setCellActors_def eval_nat_numeral)

text \<open>
  Claim C1 does not hold of the code. \<open>std::partition\<close> puts the actors that are
  pending-destroy first and returns the start of the others; \<open>DestroyPendingActors\<close>
  removes and erases from there to the end, so it destroys the actors that are not
  pending-destroy and keeps those that are (lemma \<open>DestroyPendingActors_registry\<close>).
  With actors 0 and 1 in the registry, where the update of actor 0 marks actor 0
  pending-destroy: after \<open>Update\<close> the registry and the index hold actor 0, still
  pending-destroy, and actor 1 is gone and freed.
\<close>

theorem Update_destroys_the_wrong_actors:
  "map_option fst (Update destroysItself plainFactory 8 (1 / 60) sceneTwoActors) = Some [0, 1]
   \<and> map_option (\<lambda>r. m_Actors (snd r)) (Update destroysItself plainFactory 8 (1 / 60) sceneTwoActors)
       = Some [0]
   \<and> map_option (\<lambda>r. AppendActorList (m_QuadTreeRoot (snd r)) [] True)
        (Update destroysItself plainFactory 8 (1 / 60) sceneTwoActors) = Some [0]
   \<and> map_option (\<lambda>r. pendingDestroy (snd r) 0)
        (Update destroysItself plainFactory 8 (1 / 60) sceneTwoActors) = Some True
   \<and> map_option (\<lambda>r. heap (snd r) 1)
        (Update destroysItself plainFactory 8 (1 / 60) sceneTwoActors) = Some None"
  by (simp add: Update_def Let_def destroysItself_def sceneTwoActors_fields markPendingDestroy_def
      DestroyPendingActors_def pendingDestroy_def RemoveActor_def QuadTreeCell_RemoveActor_def
      setCellActors_def AppendActorList_def Actor_new_def)

lemma sceneOneActor_more:
  "m_NewActors sceneOneActor = []"
  "nextActor sceneOneActor = Suc 0"
  "m_IsUpdatingActors sceneOneActor = False"
  by (simp_all add: sceneOneActor_def AddActor_def sceneOblique32_fields Let_def
      setCellActors_def eval_nat_numeral)

text \<open>
  Claim C7 holds in its first half and not in its second. The actor that actor 0
  spawns during the pass is not updated in that pass (the pass updates actor 0 only,
  and one actor is spawned, not two); at the end of the loop it is in the buffer and
  in the index, and it is moved from the buffer to the registry after the loop. But
  \<open>DestroyPendingActors\<close> then erases every actor that is not pending-destroy (the
  defect of claim C1): when \<open>Update\<close> returns, the spawned actor 1 is neither in the
  registry nor in the index, and it is freed.
\<close>

theorem Update_erases_spawned_actor:
  "map_option (\<lambda>r. (m_NewActors (snd r), AppendActorList (m_QuadTreeRoot (snd r)) [] True))
     (updateActors spawnsOne plainFactory 8 (1 / 60) [0]
        (sceneOneActor\<lparr>m_IsUpdatingActors := True\<rparr>)) = Some ([1], [0, 1])
   \<and> map_option fst (Update spawnsOne plainFactory 8 (1 / 60) sceneOneActor) = Some [0]
   \<and> map_option (\<lambda>r. nextActor (snd r)) (Update spawnsOne plainFactory 8 (1 / 60) sceneOneActor)
       = Some 2
   \<and> map_option (\<lambda>r. m_Actors (snd r)) (Update spawnsOne plainFactory 8 (1 / 60) sceneOneActor)
       = Some []
   \<and> map_option (\<lambda>r. m_NewActors (snd r)) (Update spawnsOne plainFactory 8 (1 / 60) sceneOneActor)
       = Some []
   \<and> map_option (\<lambda>r. AppendActorList (m_QuadTreeRoot (snd r)) [] True)
        (Update spawnsOne plainFactory 8 (1 / 60) sceneOneActor) = Some []
   \<and> map_option (\<lambda>r. heap (snd r) 1)
        (Update spawnsOne plainFactory 8 (1 / 60) sceneOneActor) = Some None"
  by (simp add: Update_def Let_def spawnsOne_def plainFactory_def sceneOneActor_fields
      sceneOneActor_more SpawnActor_def AddActor_def eval_nat_numeral
      DestroyPendingActors_def pendingDestroy_def RemoveActor_def QuadTreeCell_RemoveActor_def
      setCellActors_def AppendActorList_def Actor_new_def)

end
